theory Spec2Isabelle
  imports Main
begin

section \<open>Structured log writer: masking of sensitive fields\<close>

text \<open>
  The log writer of \<^verbatim>\<open>StorageSyncManager\<close> receives an event record
  (\<^verbatim>\<open>Record<string, unknown>\<close>) and masks it before it is serialised. The record
  is modelled as a JSON value; an object is the list of its entries in the order
  \<^verbatim>\<open>Object.entries\<close> enumerates them. A character stands for one UTF-16 code unit
  below 256.
\<close>

datatype json =
    JNull
  | JBool bool
  | JNum int
  | JStr string
  | JArr "json list"
  | JObj "(string \<times> json) list"

text \<open>\<^verbatim>\<open>String.prototype.toLowerCase\<close> on the code units below 256.\<close>

definition lower_char :: "char \<Rightarrow> char" where
  "lower_char c =
     (let n = (of_char c :: nat)
      in if (65 \<le> n \<and> n \<le> 90) \<or> (192 \<le> n \<and> n \<le> 222 \<and> n \<noteq> 215)
         then char_of (n + 32) else c)"

definition toLowerCase :: "string \<Rightarrow> string" where
  "toLowerCase s = map lower_char s"

fun startsWith :: "string \<Rightarrow> string \<Rightarrow> bool" where
  "startsWith s [] = True"
| "startsWith [] (p # ps) = False"
| "startsWith (c # cs) (p # ps) = (c = p \<and> startsWith cs ps)"

text \<open>\<^verbatim>\<open>s.includes(p)\<close>: \<open>p\<close> occurs in \<open>s\<close> as a contiguous substring.\<close>

fun str_includes :: "string \<Rightarrow> string \<Rightarrow> bool" where
  "str_includes [] p = startsWith [] p"
| "str_includes (c # cs) p = (startsWith (c # cs) p \<or> str_includes cs p)"

definition sensitiveKeys :: "string list" where
  "sensitiveKeys = [''token'', ''password'', ''apitoken'', ''api_token'', ''email'']"

definition is_sensitive :: "string \<Rightarrow> bool" where
  "is_sensitive key = list_ex (\<lambda>sensitive. str_includes (toLowerCase key) sensitive) sensitiveKeys"

definition MASKED :: json where
  "MASKED = JStr ''***MASKED***''"

text \<open>
  \<^verbatim>\<open>maskedEntry[key] = value\<close> on the object \<^verbatim>\<open>maskedEntry\<close> that started as
  \<^verbatim>\<open>{}\<close>. For the key \<^verbatim>\<open>__proto__\<close> the assignment runs the setter inherited from
  \<^verbatim>\<open>Object.prototype\<close>: it creates no own property, so the entry is not in the result.
  For any other key it creates the property. The keys of an object are distinct, so the
  assignment never overwrites an entry made earlier in the loop; \<open>assign key value rest\<close>
  is the list of entries given \<open>rest\<close>, the entries made by the later turns of the loop.
\<close>

definition assign :: "string \<Rightarrow> json \<Rightarrow> (string \<times> json) list \<Rightarrow> (string \<times> json) list" where
  "assign key v rest = (if key = ''__proto__'' then rest else (key, v) # rest)"

text \<open>
  \<^verbatim>\<open>maskSensitive\<close>: the loop over \<^verbatim>\<open>Object.entries(entry)\<close>. A sensitive key
  gets the marker; otherwise a value that is a non-null object and not an array is masked
  recursively, and any other value (an array included) is copied as it is.
\<close>

fun maskSensitive :: "(string \<times> json) list \<Rightarrow> (string \<times> json) list" where
  "maskSensitive [] = []"
| "maskSensitive ((key, v) # rest) =
     (if is_sensitive key then assign key MASKED (maskSensitive rest)
      else (case v of
              JObj es \<Rightarrow> assign key (JObj (maskSensitive es)) (maskSensitive rest)
            | _ \<Rightarrow> assign key v (maskSensitive rest)))"

text \<open>What \<^verbatim>\<open>maskSensitive\<close> does to the value of a key that is not sensitive.\<close>

definition mask_value :: "json \<Rightarrow> json" where
  "mask_value v = (case v of JObj es \<Rightarrow> JObj (maskSensitive es) | _ \<Rightarrow> v)"

text \<open>The field reached by a path of keys through nested plain objects.\<close>

fun get_path :: "string list \<Rightarrow> json \<Rightarrow> json option" where
  "get_path [] v = Some v"
| "get_path (k # ks) (JObj es) =
     (case map_of es k of None \<Rightarrow> None | Some v \<Rightarrow> get_path ks v)"
| "get_path (k # ks) v = None"

text \<open>Every sensitive key, at any depth of nested plain objects, holds the marker.\<close>

fun fully_masked :: "(string \<times> json) list \<Rightarrow> bool" where
  "fully_masked [] = True"
| "fully_masked ((key, v) # rest) =
     ((if is_sensitive key then v = MASKED
       else (case v of JObj es \<Rightarrow> fully_masked es | _ \<Rightarrow> True))
      \<and> fully_masked rest)"

definition is_plain_object :: "json \<Rightarrow> bool" where
  "is_plain_object v = (case v of JObj es \<Rightarrow> True | _ \<Rightarrow> False)"


section \<open>Reversible structural formatter\<close>

text \<open>
  \<^verbatim>\<open>formatTableXhtml\<close> and \<^verbatim>\<open>unformatTableXhtml\<close> are chains of
  \<^verbatim>\<open>String.prototype.replace\<close> calls with global regular expressions. The
  regular expressions are kept as syntax trees and run by a backtracking matcher: the
  matcher lists the ways a pattern matches at the head of a string in the order a
  backtracking engine tries them, so the first is the match JavaScript takes.
\<close>

subsection \<open>Character classes\<close>

text \<open>
  \<open>WS\<close> is \<^verbatim>\<open>\s\<close>, \<open>NotGt\<close> is \<^verbatim>\<open>[^>]\<close>, \<open>Digit16\<close> is \<^verbatim>\<open>[1-6]\<close>. Of the
  characters \<^verbatim>\<open>\s\<close> matches, those below 256 are tab, line feed, vertical tab, form
  feed, carriage return, space and no-break space.
\<close>

datatype cls = WS | NotGt | Digit16

definition is_space :: "char \<Rightarrow> bool" where
  "is_space c = (of_char c \<in> {9, 10, 11, 12, 13, 32, 160 :: nat})"

fun in_cls :: "cls \<Rightarrow> char \<Rightarrow> bool" where
  "in_cls WS c = is_space c"
| "in_cls NotGt c = (c \<noteq> CHR ''>'')"
| "in_cls Digit16 c = (c \<in> set ''123456'')"

subsection \<open>Patterns and the matcher\<close>

text \<open>
  \<open>Str\<close> is a literal, \<open>One\<close>, \<open>Star\<close> and \<open>Plus\<close> are a class taken once, greedily
  zero or more times, and greedily one or more times; \<open>Grp n\<close> is the capturing group
  \<^verbatim>\<open>$n\<close>; \<open>Opt\<close> is a greedy \<^verbatim>\<open>?\<close>.
\<close>

datatype re =
    Str string
  | One cls
  | Star cls
  | Plus cls
  | Seq re re
  | Alt re re
  | Opt re
  | Grp nat re

fun strip_prefix :: "string \<Rightarrow> string \<Rightarrow> string option" where
  "strip_prefix [] s = Some s"
| "strip_prefix (p # ps) [] = None"
| "strip_prefix (p # ps) (c # cs) = (if p = c then strip_prefix ps cs else None)"

text \<open>The strings left after a greedy run of a class: the longest run first.\<close>

fun star_rests :: "cls \<Rightarrow> string \<Rightarrow> string list" where
  "star_rests k [] = [[]]"
| "star_rests k (c # cs) = (if in_cls k c then star_rests k cs @ [c # cs] else [c # cs])"

text \<open>
  \<open>rmatch r s\<close>: every way \<open>r\<close> matches a prefix of \<open>s\<close>, as the captured groups and the
  rest of the string, in the engine's order of preference.
\<close>

type_synonym caps = "(nat \<times> string) list"

fun rmatch :: "re \<Rightarrow> string \<Rightarrow> (caps \<times> string) list" where
  "rmatch (Str p) s = (case strip_prefix p s of None \<Rightarrow> [] | Some r \<Rightarrow> [([], r)])"
| "rmatch (One k) s = (case s of [] \<Rightarrow> [] | c # r \<Rightarrow> if in_cls k c then [([], r)] else [])"
| "rmatch (Star k) s = map (Pair []) (star_rests k s)"
| "rmatch (Plus k) s = (case s of [] \<Rightarrow> [] | c # r \<Rightarrow> if in_cls k c then map (Pair []) (star_rests k r) else [])"
| "rmatch (Seq a b) s =
     concat (map (\<lambda>(ca, r). map (\<lambda>(cb, r'). (ca @ cb, r')) (rmatch b r)) (rmatch a s))"
| "rmatch (Alt a b) s = rmatch a s @ rmatch b s"
| "rmatch (Opt a) s = rmatch a s @ [([], s)]"
| "rmatch (Grp i a) s = map (\<lambda>(c, r). (c @ [(i, take (length s - length r) s)], r)) (rmatch a s)"

subsection \<open>Replacement\<close>

text \<open>A replacement string is literal text \<open>T\<close> and group references \<open>G n\<close> (\<^verbatim>\<open>$n\<close>).\<close>

datatype tpl = T string | G nat

fun expand_tpl :: "tpl list \<Rightarrow> caps \<Rightarrow> string" where
  "expand_tpl [] caps = []"
| "expand_tpl (T s # ts) caps = s @ expand_tpl ts caps"
| "expand_tpl (G i # ts) caps = (case map_of caps i of None \<Rightarrow> [] | Some s \<Rightarrow> s) @ expand_tpl ts caps"

text \<open>
  \<^verbatim>\<open>s.replace(/r/g, t)\<close>: scan from the left; at a match, emit the replacement and go on
  after the match (after one more character when the match is empty); otherwise copy one
  character.
\<close>

function replace_g :: "re \<Rightarrow> tpl list \<Rightarrow> string \<Rightarrow> string" where
  "replace_g r t [] = (case rmatch r [] of [] \<Rightarrow> [] | (caps, rest) # _ \<Rightarrow> expand_tpl t caps)"
| "replace_g r t (c # cs) =
     (case rmatch r (c # cs) of
        [] \<Rightarrow> c # replace_g r t cs
      | (caps, rest) # _ \<Rightarrow>
          if length rest < length (c # cs) then expand_tpl t caps @ replace_g r t rest
          else expand_tpl t caps @ c # replace_g r t cs)"
  by pat_completeness auto
termination
  by (relation "measure (\<lambda>(r, t, s). length s)") auto


subsection \<open>The rules of the two transforms\<close>

fun seqs :: "re list \<Rightarrow> re" where
  "seqs [] = Str []"
| "seqs [r] = r"
| "seqs (r # rs) = Seq r (seqs rs)"

text \<open>The groups the rules share: \<^verbatim>\<open>(<table[^>]*>)\<close>, \<^verbatim>\<open>(\s|>)\<close>,
  \<^verbatim>\<open>(p|h[1-6]|div [^>]+)\<close>, \<^verbatim>\<open>(p|h[1-6]|div)\<close>, \<^verbatim>\<open>(td|th)\<close> as \<^verbatim>\<open>$2\<close>,
  \<^verbatim>\<open>((?:li|ul)(?: [^>]+)?)\<close> and \<^verbatim>\<open>(li|ul)\<close>.\<close>

definition table_open :: re where
  "table_open = Grp 1 (seqs [Str ''<table'', Star NotGt, Str ''>''])"

definition cell_end :: re where
  "cell_end = Grp 1 (Alt (One WS) (Str ''>''))"

definition block_name :: re where
  "block_name = Grp 1 (Alt (Str ''p'') (Alt (Seq (Str ''h'') (One Digit16)) (Seq (Str ''div '') (Plus NotGt))))"

definition block_close_name :: re where
  "block_close_name = Grp 1 (Alt (Str ''p'') (Alt (Seq (Str ''h'') (One Digit16)) (Str ''div'')))"

definition td_th :: re where
  "td_th = Grp 2 (Alt (Str ''td'') (Str ''th''))"

definition list_open_name :: re where
  "list_open_name = Grp 1 (Seq (Alt (Str ''li'') (Str ''ul'')) (Opt (Seq (Str '' '') (Plus NotGt))))"

definition li_ul :: re where
  "li_ul = Grp 1 (Alt (Str ''li'') (Str ''ul''))"

text \<open>\<^verbatim>\<open>formatTableXhtml\<close>, steps 1 to 13, in the order of the source.\<close>

definition format_steps :: "(re \<times> tpl list) list" where
  "format_steps =
   [(table_open, [G 1, T ''\<newline>'']),
    (Str ''<tbody>'', [T ''<tbody>\<newline>  '']),
    (Str ''<thead>'', [T ''<thead>\<newline>  '']),
    (Str ''<tfoot>'', [T ''<tfoot>\<newline>  '']),
    (Str ''</tbody>'', [T ''\<newline></tbody>'']),
    (Str ''</thead>'', [T ''\<newline></thead>'']),
    (Str ''</tfoot>'', [T ''\<newline></tfoot>'']),
    (Str ''</thead><tbody>'', [T ''</thead>\<newline><tbody>'']),
    (Str ''</tbody><tfoot>'', [T ''</tbody>\<newline><tfoot>'']),
    (Str ''</tfoot><tbody>'', [T ''</tfoot>\<newline><tbody>'']),
    (Str ''</tbody></table>'', [T ''</tbody>\<newline></table>'']),
    (Str ''</thead></table>'', [T ''</thead>\<newline></table>'']),
    (Str ''</tfoot></table>'', [T ''</tfoot>\<newline></table>'']),
    (Str ''</table>'', [T ''</table>\<newline>'']),
    (Str ''</tr><tr>'', [T ''</tr>\<newline>  <tr>'']),
    (Str ''<tr>'', [T ''<tr>\<newline>    '']),
    (Str ''</tr>'', [T ''\<newline>  </tr>'']),
    (seqs [Str ''</td><td'', cell_end], [T ''</td>\<newline>    <td'', G 1]),
    (seqs [Str ''</th><th'', cell_end], [T ''</th>\<newline>    <th'', G 1]),
    (seqs [Str ''</td><th'', cell_end], [T ''</td>\<newline>    <th'', G 1]),
    (seqs [Str ''</th><td'', cell_end], [T ''</th>\<newline>    <td'', G 1]),
    (Str ''>\<newline><colgroup>'', [T ''>\<newline><colgroup>'']),
    (Str ''</colgroup><tbody>'', [T ''</colgroup>\<newline><tbody>'']),
    (Str ''</colgroup><thead>'', [T ''</colgroup>\<newline><thead>'']),
    (seqs [Str ''><'', block_name, Str ''>''], [T ''>\<newline>      <'', G 1, T ''>'']),
    (seqs [Str ''</'', block_close_name, Str ''></'', td_th, Str ''>''],
       [T ''</'', G 1, T ''>\<newline>    </'', G 2, T ''>'']),
    (seqs [Str ''><'', list_open_name, Str ''>''], [T ''>\<newline>      <'', G 1, T ''>'']),
    (seqs [Str ''</'', li_ul, Str ''></''], [T ''</'', G 1, T ''>\<newline>    </''])]"

definition formatTableXhtml :: "string \<Rightarrow> string" where
  "formatTableXhtml xhtml = foldl (\<lambda>result (r, t). replace_g r t result) xhtml format_steps"

text \<open>\<^verbatim>\<open>unformatTableXhtml\<close>, steps 1 to 13, in the order of the source.\<close>

definition unformat_steps :: "(re \<times> tpl list) list" where
  "unformat_steps =
   [(seqs [table_open, Str ''\<newline>'', Star WS], [G 1]),
    (seqs [Str ''<tbody>\<newline>'', Star WS], [T ''<tbody>'']),
    (seqs [Str ''<thead>\<newline>'', Star WS], [T ''<thead>'']),
    (seqs [Str ''<tfoot>\<newline>'', Star WS], [T ''<tfoot>'']),
    (seqs [Str ''\<newline>'', Star WS, Str ''</tbody>''], [T ''</tbody>'']),
    (seqs [Str ''\<newline>'', Star WS, Str ''</thead>''], [T ''</thead>'']),
    (seqs [Str ''\<newline>'', Star WS, Str ''</tfoot>''], [T ''</tfoot>'']),
    (seqs [Str ''</thead>\<newline>'', Star WS, Str ''<tbody>''], [T ''</thead><tbody>'']),
    (seqs [Str ''</tbody>\<newline>'', Star WS, Str ''<tfoot>''], [T ''</tbody><tfoot>'']),
    (seqs [Str ''</tfoot>\<newline>'', Star WS, Str ''<tbody>''], [T ''</tfoot><tbody>'']),
    (seqs [Str ''</tbody>\<newline>'', Star WS, Str ''</table>''], [T ''</tbody></table>'']),
    (seqs [Str ''</thead>\<newline>'', Star WS, Str ''</table>''], [T ''</thead></table>'']),
    (seqs [Str ''</tfoot>\<newline>'', Star WS, Str ''</table>''], [T ''</tfoot></table>'']),
    (Str ''</table>\<newline>'', [T ''</table>'']),
    (seqs [Str ''</tr>\<newline>'', Star WS, Str ''<tr>''], [T ''</tr><tr>'']),
    (seqs [Str ''<tr>\<newline>'', Star WS], [T ''<tr>'']),
    (seqs [Str ''\<newline>'', Star WS, Str ''</tr>''], [T ''</tr>'']),
    (seqs [Str ''</td>\<newline>'', Star WS, Str ''<td'', cell_end], [T ''</td><td'', G 1]),
    (seqs [Str ''</th>\<newline>'', Star WS, Str ''<th'', cell_end], [T ''</th><th'', G 1]),
    (seqs [Str ''</td>\<newline>'', Star WS, Str ''<th'', cell_end], [T ''</td><th'', G 1]),
    (seqs [Str ''</th>\<newline>'', Star WS, Str ''<td'', cell_end], [T ''</th><td'', G 1]),
    (Str ''>\<newline><colgroup>'', [T ''><colgroup>'']),
    (seqs [Str ''</colgroup>\<newline>'', Star WS, Str ''<tbody>''], [T ''</colgroup><tbody>'']),
    (seqs [Str ''</colgroup>\<newline>'', Star WS, Str ''<thead>''], [T ''</colgroup><thead>'']),
    (seqs [Str ''>\<newline>'', Star WS, Str ''<'', block_name, Str ''>''], [T ''><'', G 1, T ''>'']),
    (seqs [Str ''</'', block_close_name, Str ''>\<newline>'', Star WS, Str ''</'', td_th, Str ''>''],
       [T ''</'', G 1, T ''></'', G 2, T ''>'']),
    (seqs [Str ''>\<newline>'', Star WS, Str ''<'', list_open_name, Str ''>''], [T ''><'', G 1, T ''>'']),
    (seqs [Str ''</'', li_ul, Str ''>\<newline>'', Star WS, Str ''</''], [T ''</'', G 1, T ''></''])]"

definition unformatTableXhtml :: "string \<Rightarrow> string" where
  "unformatTableXhtml xhtml = foldl (\<lambda>result (r, t). replace_g r t result) xhtml unformat_steps"



subsection \<open>Compact documents\<close>











definition barrier :: "char \<Rightarrow> bool" where
  "barrier c = (c \<noteq> CHR ''<'' \<and> c \<noteq> CHR ''>'' \<and> c \<noteq> CHR ''\<newline>'')"





subsection \<open>Notions for the proof of the round trip\<close>











section \<open>Sync manager\<close>

subsection \<open>Data model\<close>

text \<open>
  Field names carry a prefix, since record fields are constants of the theory:
  \<open>att_\<close> for \<^verbatim>\<open>AttachmentMeta\<close>, \<open>pm_\<close> for \<^verbatim>\<open>PageMeta\<close>, \<open>ai_\<close> for
  \<^verbatim>\<open>AttachmentInfo\<close>. A timestamp is a reading of the clock; file contents are
  strings of bytes. An optional field is an \<open>option\<close>.
\<close>

type_synonym timestamp = nat
type_synonym bytes = string

record AttachmentMeta =
  att_id :: string
  att_title :: string
  att_version :: int
  att_downloadedAt :: "timestamp option"
  att_storagePath :: string
  att_sha256 :: string
  att_mediaType :: string
  att_fileSize :: int
  att_lastUploadedAt :: "timestamp option"

record PageMeta =
  pm_pageId :: string
  pm_title :: string
  pm_version :: int
  pm_downloadedAt :: timestamp
  pm_storagePath :: string
  pm_storageSha256 :: string
  pm_lastUploadedAt :: "timestamp option"
  pm_lastAttachmentScanAt :: "timestamp option"
  pm_attachments :: "AttachmentMeta list"

text \<open>\<^verbatim>\<open>ConfluencePage\<close>: the title, \<^verbatim>\<open>version.number\<close> and
  \<^verbatim>\<open>body.storage.value\<close> of a page.\<close>

record ConfluencePage =
  cp_title :: string
  cp_version :: int
  cp_body :: string

text \<open>
  \<^verbatim>\<open>AttachmentInfo\<close> is what the client hands to the sync manager; the sync manager
  reads its \<^verbatim>\<open>version\<close> as optional (\<^verbatim>\<open>attachmentInfo.version ?? ...\<close>).
  \<open>RemoteAttachment\<close> is an attachment as the remote service holds it, with its revision.
\<close>

record AttachmentInfo =
  ai_id :: string
  ai_title :: string
  ai_version :: "int option"
  ai_downloadUrl :: string
  ai_fileSize :: int
  ai_mediaType :: string

record RemoteAttachment =
  ra_id :: string
  ra_title :: string
  ra_version :: int
  ra_download :: string
  ra_fileSize :: int
  ra_mediaType :: string

record AttachmentFilterOptions =
  includeTitles :: "string list option"

record ConfluenceDataPaths =
  pageFile :: string
  metaFile :: string
  attachmentsDir :: string
  logDir :: string

datatype error =
    META_NOT_FOUND
  | PAGE_FILE_NOT_FOUND
  | VERSION_CONFLICT
  | ATTACHMENT_FILE_NOT_FOUND
  | RemoteFailure string
  | FileNotFound string

datatype api_call =
    GetPage
  | UpdatePage string string int
  | GetAttachments
  | DownloadAttachment string
  | PutAttachment string bytes string

subsection \<open>Collaborators\<close>

text \<open>
  \<open>env\<close> holds the primitives the sync manager takes from outside: the digest behind
  \<^verbatim>\<open>computeSha256\<close> (Node's \<^verbatim>\<open>createHash\<close>), \<^verbatim>\<open>path.join\<close>,
  \<^verbatim>\<open>guessContentType\<close>, and how an error object is serialised into a log record.

  \<open>remote\<close> is the remote service as the client sees it: the answer to each request,
  which may depend on how many requests were made before (the position of the call in the
  trace of calls), so the service may change between calls.
\<close>

record env =
  sha256 :: "string \<Rightarrow> string"
  path_join :: "string \<Rightarrow> string \<Rightarrow> string"
  contentTypeOf :: "string \<Rightarrow> string"
  error_json :: "error \<Rightarrow> json"

record remote =
  getPageR :: "nat \<Rightarrow> error + ConfluencePage"
  updatePageR :: "nat \<Rightarrow> string \<Rightarrow> string \<Rightarrow> int \<Rightarrow> error + ConfluencePage"
  listAttachmentsR :: "nat \<Rightarrow> error + RemoteAttachment list"
  downloadAttachmentR :: "nat \<Rightarrow> string \<Rightarrow> error + bytes"
  putAttachmentR :: "nat \<Rightarrow> string \<Rightarrow> bytes \<Rightarrow> string \<Rightarrow> error + RemoteAttachment"

text \<open>
  The local cache and what was observed of one run: the metadata record
  (\<^verbatim>\<open>meta.json\<close>, \<open>None\<close> when the file does not exist), the body file, the other
  files by path, the log lines written (file name and record), the requests sent to the
  remote service, and the clock. The filesystem itself does not fail.
\<close>

type_synonym log_name = "string \<times> timestamp"

record world =
  metaJson :: "PageMeta option"
  pageXhtml :: "string option"
  files :: "string \<Rightarrow> bytes option"
  logs :: "(log_name \<times> json) list"
  calls :: "api_call list"
  clock :: nat

definition now :: "world \<Rightarrow> timestamp \<times> world" where
  "now w = (clock w, w\<lparr>clock := Suc (clock w)\<rparr>)"

definition fileExists :: "world \<Rightarrow> string \<Rightarrow> bool" where
  "fileExists w p = (files w p \<noteq> None)"

definition writeFile :: "string \<Rightarrow> bytes \<Rightarrow> world \<Rightarrow> world" where
  "writeFile p d w = w\<lparr>files := (files w)(p \<mapsto> d)\<rparr>"

definition safeUnlink :: "string \<Rightarrow> world \<Rightarrow> world" where
  "safeUnlink p w = w\<lparr>files := (files w)(p := None)\<rparr>"

subsection \<open>Client\<close>

definition getPage :: "remote \<Rightarrow> world \<Rightarrow> (error + ConfluencePage) \<times> world" where
  "getPage R w = (getPageR R (length (calls w)), w\<lparr>calls := calls w @ [GetPage]\<rparr>)"

definition updatePage ::
  "remote \<Rightarrow> string \<Rightarrow> string \<Rightarrow> int \<Rightarrow> world \<Rightarrow> (error + ConfluencePage) \<times> world" where
  "updatePage R title content version w =
     (updatePageR R (length (calls w)) title content version,
      w\<lparr>calls := calls w @ [UpdatePage title content version]\<rparr>)"

text \<open>
  \<^verbatim>\<open>getAttachments\<close> and \<^verbatim>\<open>uploadAttachment\<close> build each \<^verbatim>\<open>AttachmentInfo\<close> from
  \<^verbatim>\<open>id\<close>, \<^verbatim>\<open>title\<close>, \<^verbatim>\<open>_links.download\<close>, \<^verbatim>\<open>extensions.fileSize\<close> and
  \<^verbatim>\<open>extensions.mediaType\<close>: the object they return has no \<^verbatim>\<open>version\<close>.
\<close>

definition to_info :: "RemoteAttachment \<Rightarrow> AttachmentInfo" where
  "to_info a =
     \<lparr>ai_id = ra_id a, ai_title = ra_title a, ai_version = None,
      ai_downloadUrl = ra_download a, ai_fileSize = ra_fileSize a,
      ai_mediaType = ra_mediaType a\<rparr>"

definition getAttachments :: "remote \<Rightarrow> world \<Rightarrow> (error + AttachmentInfo list) \<times> world" where
  "getAttachments R w =
     ((case listAttachmentsR R (length (calls w)) of
         Inl e \<Rightarrow> Inl e
       | Inr results \<Rightarrow> Inr (map to_info results)),
      w\<lparr>calls := calls w @ [GetAttachments]\<rparr>)"

definition downloadAttachment :: "remote \<Rightarrow> string \<Rightarrow> world \<Rightarrow> (error + bytes) \<times> world" where
  "downloadAttachment R attachmentId w =
     (downloadAttachmentR R (length (calls w)) attachmentId,
      w\<lparr>calls := calls w @ [DownloadAttachment attachmentId]\<rparr>)"

text \<open>\<^verbatim>\<open>uploadAttachment\<close> lists the attachments first, then sends the file.\<close>

definition uploadAttachment ::
  "remote \<Rightarrow> string \<Rightarrow> bytes \<Rightarrow> string \<Rightarrow> world \<Rightarrow> (error + AttachmentInfo) \<times> world" where
  "uploadAttachment R fileName fileData contentType w =
     (case getAttachments R w of
        (Inl e, w1) \<Rightarrow> (Inl e, w1)
      | (Inr existingAttachments, w1) \<Rightarrow>
          ((case putAttachmentR R (length (calls w1)) fileName fileData contentType of
              Inl e \<Rightarrow> Inl e
            | Inr result \<Rightarrow> Inr (to_info result)),
           w1\<lparr>calls := calls w1 @ [PutAttachment fileName fileData contentType]\<rparr>))"

subsection \<open>Log writer\<close>

text \<open>\<^verbatim>\<open>{ ...sanitizedEntry, timestamp }\<close>: the key keeps its place when it is there.\<close>

fun obj_set :: "string \<Rightarrow> json \<Rightarrow> (string \<times> json) list \<Rightarrow> (string \<times> json) list" where
  "obj_set k v [] = [(k, v)]"
| "obj_set k v ((k', v') # es) = (if k' = k then (k', v) # es else (k', v') # obj_set k v es)"

text \<open>
  \<^verbatim>\<open>writeLog(logDir, `kind-${Date.now()}.log`, entry)\<close>: the file name is the kind and
  the clock reading; the line is the masked record with its timestamp.
\<close>

definition writeLog :: "string \<Rightarrow> (string \<times> json) list \<Rightarrow> world \<Rightarrow> log_name \<times> world" where
  "writeLog kind entry w =
     (let (stamp, w1) = now w;
          sanitizedEntry = maskSensitive entry;
          (t, w2) = now w1;
          content = JObj (obj_set ''timestamp'' (JNum (int t)) sanitizedEntry)
      in ((kind, stamp), w2\<lparr>logs := logs w2 @ [((kind, stamp), content)]\<rparr>))"

text \<open>The record a call of \<^verbatim>\<open>writeLog\<close> appends to the log.\<close>

definition written_entry :: "string \<Rightarrow> (string \<times> json) list \<Rightarrow> world \<Rightarrow> json" where
  "written_entry kind entry w = snd (last (logs (snd (writeLog kind entry w))))"

subsection \<open>Body download and upload\<close>

record BodyDownloadResult =
  bd_success :: bool
  bd_skipped :: bool
  bd_pageFile :: string
  bd_metaFile :: string
  bd_logFiles :: "log_name list"

record BodyUploadResult =
  bu_success :: bool
  bu_pageUpdated :: bool
  bu_metaFile :: string
  bu_logFiles :: "log_name list"

text \<open>\<^verbatim>\<open>...(x && { field: x })\<close> on an optional timestamp keeps it as it is.\<close>

definition downloadBody ::
  "env \<Rightarrow> remote \<Rightarrow> string \<Rightarrow> ConfluenceDataPaths \<Rightarrow> world \<Rightarrow>
   (error + BodyDownloadResult) \<times> world" where
  "downloadBody E R pageId paths w0 =
     (let (startLog, w1) =
            writeLog ''download-body''
              [(''event'', JStr ''body_download''), (''status'', JStr ''started''),
               (''pageId'', JStr pageId), (''targetFile'', JStr (pageFile paths))] w0;
          logFiles = [startLog];
          existingMeta = metaJson w1
      in case getPage R w1 of
           (Inl err, w2) \<Rightarrow>
             (let (errorLog, w3) =
                    writeLog ''error-body-download''
                      [(''event'', JStr ''body_download''), (''status'', JStr ''failed''),
                       (''pageId'', JStr pageId), (''error'', error_json E err)] w2
              in (Inl err, w3))
         | (Inr page, w2) \<Rightarrow>
             (let storageContent = cp_body page;
                  storageSha = sha256 E storageContent;
                  (downloadedAt, w3) = now w2;
                  shouldSkip =
                    (case existingMeta of
                       None \<Rightarrow> False
                     | Some m \<Rightarrow> pm_version m = cp_version page \<and> pm_storageSha256 m = storageSha);
                  w4 = (if \<not> shouldSkip
                        then w3\<lparr>pageXhtml := Some (formatTableXhtml storageContent)\<rparr>
                        else w3);
                  nextMeta =
                    \<lparr>pm_pageId = pageId,
                     pm_title = cp_title page,
                     pm_version = cp_version page,
                     pm_downloadedAt = downloadedAt,
                     pm_storagePath = pageFile paths,
                     pm_storageSha256 =
                       (if shouldSkip
                        then (case existingMeta of None \<Rightarrow> storageSha | Some m \<Rightarrow> pm_storageSha256 m)
                        else storageSha),
                     pm_lastUploadedAt =
                       (case existingMeta of None \<Rightarrow> None | Some m \<Rightarrow> pm_lastUploadedAt m),
                     pm_lastAttachmentScanAt =
                       (case existingMeta of None \<Rightarrow> None | Some m \<Rightarrow> pm_lastAttachmentScanAt m),
                     pm_attachments =
                       (case existingMeta of None \<Rightarrow> [] | Some m \<Rightarrow> pm_attachments m)\<rparr>;
                  w5 = w4\<lparr>metaJson := Some nextMeta\<rparr>
              in (Inr \<lparr>bd_success = True, bd_skipped = shouldSkip,
                       bd_pageFile = pageFile paths, bd_metaFile = metaFile paths,
                       bd_logFiles = logFiles\<rparr>, w5)))"

text \<open>
  \<^verbatim>\<open>uploadBody\<close>. The two precondition errors are thrown before the \<^verbatim>\<open>try\<close> block;
  an error thrown inside it is logged and thrown again.
\<close>

definition uploadBody_failed ::
  "env \<Rightarrow> string \<Rightarrow> error \<Rightarrow> world \<Rightarrow> (error + BodyUploadResult) \<times> world" where
  "uploadBody_failed E pageId err w =
     (let (errorLog, w') =
            writeLog ''error-body-upload''
              [(''event'', JStr ''body_upload''), (''status'', JStr ''failed''),
               (''pageId'', JStr pageId), (''error'', error_json E err)] w
      in (Inl err, w'))"

definition uploadBody ::
  "env \<Rightarrow> remote \<Rightarrow> string \<Rightarrow> ConfluenceDataPaths \<Rightarrow> world \<Rightarrow>
   (error + BodyUploadResult) \<times> world" where
  "uploadBody E R pageId paths w0 =
     (let (startLog, w1) =
            writeLog ''upload-body''
              [(''event'', JStr ''body_upload''), (''status'', JStr ''started''),
               (''pageId'', JStr pageId), (''sourceFile'', JStr (pageFile paths))] w0;
          logFiles = [startLog]
      in case metaJson w1 of
           None \<Rightarrow> (Inl META_NOT_FOUND, w1)
         | Some meta \<Rightarrow>
            (case pageXhtml w1 of
               None \<Rightarrow> (Inl PAGE_FILE_NOT_FOUND, w1)
             | Some formattedContent \<Rightarrow>
                (case getPage R w1 of
                   (Inl err, w2) \<Rightarrow> uploadBody_failed E pageId err w2
                 | (Inr remotePage, w2) \<Rightarrow>
                    if cp_version remotePage \<noteq> pm_version meta
                    then uploadBody_failed E pageId VERSION_CONFLICT w2
                    else
                      (let storageContent = unformatTableXhtml formattedContent;
                           localSha = sha256 E formattedContent;
                           pageUpdated = (localSha \<noteq> pm_storageSha256 meta)
                       in if pageUpdated
                          then
                            (case updatePage R (cp_title remotePage) storageContent
                                    (cp_version remotePage) w2 of
                               (Inl err, w3) \<Rightarrow> uploadBody_failed E pageId err w3
                             | (Inr updatedPage, w3) \<Rightarrow>
                                 (let (t1, w4) = now w3;
                                      (t2, w5) = now w4;
                                      updatedMeta =
                                        meta\<lparr>pm_version := cp_version updatedPage,
                                             pm_storageSha256 := localSha,
                                             pm_downloadedAt := t1,
                                             pm_storagePath := pageFile paths,
                                             pm_lastUploadedAt := Some t2\<rparr>
                                  in (Inr \<lparr>bu_success = True, bu_pageUpdated = pageUpdated,
                                           bu_metaFile = metaFile paths, bu_logFiles = logFiles\<rparr>,
                                      w5\<lparr>metaJson := Some updatedMeta\<rparr>)))
                          else
                            (Inr \<lparr>bu_success = True, bu_pageUpdated = pageUpdated,
                                   bu_metaFile = metaFile paths, bu_logFiles = logFiles\<rparr>,
                             w2\<lparr>metaJson := Some meta\<rparr>)))))"

subsection \<open>Attachment download and upload\<close>

record AttachmentsDownloadResult =
  ad_success :: bool
  ad_downloaded :: "string list"
  ad_skipped :: "string list"
  ad_removed :: "string list"
  ad_metaFile :: string
  ad_logFiles :: "log_name list"

record AttachmentsUploadResult =
  au_success :: bool
  au_uploaded :: "string list"
  au_skipped :: "string list"
  au_metaFile :: string
  au_logFiles :: "log_name list"

text \<open>\<^verbatim>\<open>String.prototype.trim\<close> strips the characters of \<^verbatim>\<open>\s\<close> at both ends.\<close>

definition trim :: "string \<Rightarrow> string" where
  "trim s = rev (dropWhile is_space (rev (dropWhile is_space s)))"

text \<open>
  \<^verbatim>\<open>attachmentFilter?.includeTitles?.map((title) => title.trim())\<close>, and the filter
  set: a set only when the list is there and not empty, \<^verbatim>\<open>null\<close> otherwise.
\<close>

definition trimmedTitles :: "AttachmentFilterOptions option \<Rightarrow> string list option" where
  "trimmedTitles attachmentFilter =
     (case attachmentFilter of
        None \<Rightarrow> None
      | Some f \<Rightarrow> (case includeTitles f of None \<Rightarrow> None | Some ts \<Rightarrow> Some (map trim ts)))"

definition filterSet_of :: "string list option \<Rightarrow> string list option" where
  "filterSet_of titles =
     (case titles of
        None \<Rightarrow> None
      | Some ts \<Rightarrow> if length ts > 0 then Some ts else None)"

definition filter_json :: "string list option \<Rightarrow> json" where
  "filter_json titles = JArr (map JStr (case titles of None \<Rightarrow> [] | Some ts \<Rightarrow> ts))"

text \<open>\<^verbatim>\<open>new Map(xs.map((x) => [key(x), x])).get(k)\<close>: the last entry with the key.\<close>

definition map_get :: "('a \<Rightarrow> string) \<Rightarrow> 'a list \<Rightarrow> string \<Rightarrow> 'a option" where
  "map_get key xs k = List.find (\<lambda>x. key x = k) (rev xs)"

text \<open>
  \<^verbatim>\<open>findIndex\<close> by title, then replace the entry found, or \<^verbatim>\<open>push\<close> when there
  is none.
\<close>

fun upsert :: "AttachmentMeta \<Rightarrow> AttachmentMeta list \<Rightarrow> AttachmentMeta list" where
  "upsert e [] = [e]"
| "upsert e (a # as) = (if att_title a = att_title e then e # as else a # upsert e as)"

definition attachmentPath :: "env \<Rightarrow> ConfluenceDataPaths \<Rightarrow> string \<Rightarrow> string" where
  "attachmentPath E paths title = path_join E (attachmentsDir paths) title"

text \<open>
  \<^verbatim>\<open>existing && existing.version === (attachmentInfo.version ?? existing.version)\<close>:
  there is a tracked entry, and its version is the listed one, or the listing gives none.
\<close>

definition sameVersion :: "AttachmentMeta option \<Rightarrow> AttachmentInfo \<Rightarrow> bool" where
  "sameVersion existing attachmentInfo =
     (case existing of
        None \<Rightarrow> False
      | Some ex \<Rightarrow>
          att_version ex =
            (case ai_version attachmentInfo of None \<Rightarrow> att_version ex | Some v \<Rightarrow> v))"

text \<open>The first loop of \<^verbatim>\<open>downloadAttachments\<close>: skip or download each candidate.\<close>

fun downloadEach ::
  "env \<Rightarrow> remote \<Rightarrow> string \<Rightarrow> ConfluenceDataPaths \<Rightarrow> AttachmentMeta list \<Rightarrow>
   AttachmentInfo list \<Rightarrow> string list \<Rightarrow> string list \<Rightarrow> world \<Rightarrow>
   (error + string list \<times> string list) \<times> world" where
  "downloadEach E R pageId paths existingAttachments [] downloaded skipped w =
     (Inr (downloaded, skipped), w)"
| "downloadEach E R pageId paths existingAttachments (attachmentInfo # rest) downloaded skipped w =
     (let existing = map_get att_title existingAttachments (ai_title attachmentInfo);
          path = attachmentPath E paths (ai_title attachmentInfo)
      in if sameVersion existing attachmentInfo \<and> fileExists w path
         then downloadEach E R pageId paths existingAttachments rest
                downloaded (skipped @ [ai_title attachmentInfo]) w
         else
           (case downloadAttachment R (ai_id attachmentInfo) w of
              (Inl err, w1) \<Rightarrow>
                (let (errorLog, w2) =
                       writeLog ''error-attachment-download''
                         [(''event'', JStr ''attachments_download''), (''status'', JStr ''failed''),
                          (''pageId'', JStr pageId),
                          (''attachmentId'', JStr (ai_id attachmentInfo)),
                          (''attachmentTitle'', JStr (ai_title attachmentInfo)),
                          (''error'', error_json E err)] w1
                 in (Inl err, w2))
            | (Inr data, w1) \<Rightarrow>
                downloadEach E R pageId paths existingAttachments rest
                  (downloaded @ [ai_title attachmentInfo]) skipped (writeFile path data w1)))"

text \<open>The loop that runs when there is no filter set: tracked attachments that the remote
  listing does not name are unlinked and their titles collected in \<^verbatim>\<open>removed\<close>.\<close>

fun removeMissing ::
  "env \<Rightarrow> ConfluenceDataPaths \<Rightarrow> string list \<Rightarrow> AttachmentMeta list \<Rightarrow> string list \<Rightarrow>
   world \<Rightarrow> string list \<times> world" where
  "removeMissing E paths infoTitles [] removed w = (removed, w)"
| "removeMissing E paths infoTitles (existing # rest) removed w =
     (if att_title existing \<notin> set infoTitles
      then (let path = attachmentPath E paths (att_title existing);
                w1 = (if fileExists w path then safeUnlink path w else w)
            in removeMissing E paths infoTitles rest (removed @ [att_title existing]) w1)
      else removeMissing E paths infoTitles rest removed w)"

text \<open>The loop over \<^verbatim>\<open>downloaded\<close>: hash the file written and upsert its entry by
  title.\<close>

fun recordDownloaded ::
  "env \<Rightarrow> ConfluenceDataPaths \<Rightarrow> AttachmentInfo list \<Rightarrow> AttachmentMeta list \<Rightarrow> timestamp \<Rightarrow>
   world \<Rightarrow> string list \<Rightarrow> AttachmentMeta list \<Rightarrow> error + AttachmentMeta list" where
  "recordDownloaded E paths filteredAttachments existingAttachments nowIso w [] updatedAttachments =
     Inr updatedAttachments"
| "recordDownloaded E paths filteredAttachments existingAttachments nowIso w (title # rest)
     updatedAttachments =
     (case map_get ai_title filteredAttachments title of
        None \<Rightarrow>
          recordDownloaded E paths filteredAttachments existingAttachments nowIso w rest
            updatedAttachments
      | Some info \<Rightarrow>
          (let path = attachmentPath E paths title
           in case files w path of
                None \<Rightarrow> Inl (FileNotFound path)
              | Some data \<Rightarrow>
                  (let existingMetaEntry =
                         List.find (\<lambda>attachment. att_title attachment = title) existingAttachments;
                       metaEntry =
                         \<lparr>att_id = ai_id info,
                          att_title = title,
                          att_version =
                            (case ai_version info of
                               Some v \<Rightarrow> v
                             | None \<Rightarrow>
                                 (case existingMetaEntry of
                                    Some ex \<Rightarrow> att_version ex
                                  | None \<Rightarrow> 1)),
                          att_downloadedAt = Some nowIso,
                          att_storagePath = path,
                          att_sha256 = sha256 E data,
                          att_mediaType = ai_mediaType info,
                          att_fileSize = ai_fileSize info,
                          att_lastUploadedAt =
                            (case existingMetaEntry of
                               None \<Rightarrow> None
                             | Some ex \<Rightarrow> att_lastUploadedAt ex)\<rparr>
                   in recordDownloaded E paths filteredAttachments existingAttachments nowIso w
                        rest (upsert metaEntry updatedAttachments))))"

definition downloadAttachments_failed ::
  "env \<Rightarrow> string \<Rightarrow> error \<Rightarrow> world \<Rightarrow> (error + AttachmentsDownloadResult) \<times> world" where
  "downloadAttachments_failed E pageId err w =
     (let (errorLog, w') =
            writeLog ''error-attachments-download''
              [(''event'', JStr ''attachments_download''), (''status'', JStr ''failed''),
               (''pageId'', JStr pageId), (''error'', error_json E err)] w
      in (Inl err, w'))"

text \<open>The metadata the operation starts from: the record on disk, or a fresh one built
  from the remote page when there is none.\<close>

definition startingMeta ::
  "remote \<Rightarrow> string \<Rightarrow> ConfluenceDataPaths \<Rightarrow> PageMeta option \<Rightarrow> world \<Rightarrow>
   (error + PageMeta) \<times> world" where
  "startingMeta R pageId paths existingMeta w =
     (case existingMeta of
        Some m \<Rightarrow> (Inr m, w)
      | None \<Rightarrow>
          (case getPage R w of
             (Inl err, w1) \<Rightarrow> (Inl err, w1)
           | (Inr page, w1) \<Rightarrow>
               (let (t, w2) = now w1
                in (Inr \<lparr>pm_pageId = pageId, pm_title = cp_title page,
                         pm_version = cp_version page, pm_downloadedAt = t,
                         pm_storagePath = pageFile paths, pm_storageSha256 = '''',
                         pm_lastUploadedAt = None, pm_lastAttachmentScanAt = None,
                         pm_attachments = []\<rparr>, w2))))"

definition downloadAttachments ::
  "env \<Rightarrow> remote \<Rightarrow> string \<Rightarrow> ConfluenceDataPaths \<Rightarrow> AttachmentFilterOptions option \<Rightarrow>
   world \<Rightarrow> (error + AttachmentsDownloadResult) \<times> world" where
  "downloadAttachments E R pageId paths attachmentFilter w0 =
     (let titles = trimmedTitles attachmentFilter;
          filterSet = filterSet_of titles;
          (startLog, w1) =
            writeLog ''download-attachments''
              [(''event'', JStr ''attachments_download''), (''status'', JStr ''started''),
               (''pageId'', JStr pageId), (''filter'', filter_json titles)] w0;
          logFiles = [startLog];
          existingMeta = metaJson w1
      in case getAttachments R w1 of
           (Inl err, w2) \<Rightarrow> downloadAttachments_failed E pageId err w2
         | (Inr attachmentInfos, w2) \<Rightarrow>
            (let filteredAttachments =
                   (case filterSet of
                      Some fs \<Rightarrow> filter (\<lambda>info. ai_title info \<in> set fs) attachmentInfos
                    | None \<Rightarrow> attachmentInfos)
             in case startingMeta R pageId paths existingMeta w2 of
                  (Inl err, w3) \<Rightarrow> downloadAttachments_failed E pageId err w3
                | (Inr pageMeta, w3) \<Rightarrow>
                   (let existingAttachments = pm_attachments pageMeta
                    in case downloadEach E R pageId paths existingAttachments
                              filteredAttachments [] [] w3 of
                         (Inl err, w4) \<Rightarrow> downloadAttachments_failed E pageId err w4
                       | (Inr (downloaded, skipped), w4) \<Rightarrow>
                          (let (removed, w5) =
                                 (if filterSet = None
                                  then removeMissing E paths (map ai_title attachmentInfos)
                                         existingAttachments [] w4
                                  else ([], w4));
                               kept = filter (\<lambda>attachment. att_title attachment \<notin> set removed)
                                        existingAttachments;
                               (nowIso, w6) = now w5
                           in case recordDownloaded E paths filteredAttachments
                                     existingAttachments nowIso w6 downloaded kept of
                                Inl err \<Rightarrow> downloadAttachments_failed E pageId err w6
                              | Inr updatedAttachments \<Rightarrow>
                                 (let (t, w7) = now w6;
                                      nextMeta =
                                        pageMeta\<lparr>pm_attachments := updatedAttachments,
                                                 pm_lastAttachmentScanAt := Some t\<rparr>
                                  in (Inr \<lparr>ad_success = True, ad_downloaded = downloaded,
                                           ad_skipped = skipped, ad_removed = removed,
                                           ad_metaFile = metaFile paths,
                                           ad_logFiles = logFiles\<rparr>,
                                      w7\<lparr>metaJson := Some nextMeta\<rparr>))))))"

text \<open>
  \<^verbatim>\<open>version + 1\<close> on a number that holds an integer. Numbers are IEEE doubles: the sum
  is exact while it stays within 2^53 in magnitude; beyond, it is rounded to the nearest
  double, a tie going to the even significand.
\<close>

definition plus_one :: "int \<Rightarrow> int" where
  "plus_one v =
     (if - (2 ^ 53) \<le> v \<and> v < 2 ^ 53 then v + 1
      else if - (2 ^ 54) < v \<and> v < 2 ^ 54 \<and> v mod 4 = 2 then v + 2
      else v)"

text \<open>The loop of \<^verbatim>\<open>uploadAttachments\<close>. A tracked attachment whose file is missing
  is an error; a file whose digest is the stored one is skipped; any other is sent.\<close>

fun uploadEach ::
  "env \<Rightarrow> remote \<Rightarrow> string \<Rightarrow> ConfluenceDataPaths \<Rightarrow> AttachmentMeta list \<Rightarrow>
   string list \<Rightarrow> string list \<Rightarrow> AttachmentMeta list \<Rightarrow> world \<Rightarrow>
   (error + string list \<times> string list \<times> AttachmentMeta list) \<times> world" where
  "uploadEach E R pageId paths [] uploaded skipped updatedAttachments w =
     (Inr (uploaded, skipped, updatedAttachments), w)"
| "uploadEach E R pageId paths (attachmentMeta # rest) uploaded skipped updatedAttachments w =
     (let path = attachmentPath E paths (att_title attachmentMeta)
      in case files w path of
           None \<Rightarrow>
             (let (missingLog, w1) =
                    writeLog ''error-attachment-missing''
                      [(''event'', JStr ''attachments_upload''), (''status'', JStr ''failed''),
                       (''pageId'', JStr pageId),
                       (''attachmentTitle'', JStr (att_title attachmentMeta)),
                       (''error'', JStr ''local attachment file not found'')] w
              in (Inl ATTACHMENT_FILE_NOT_FOUND, w1))
         | Some data \<Rightarrow>
             (let localSha = sha256 E data
              in if localSha = att_sha256 attachmentMeta
                 then uploadEach E R pageId paths rest uploaded
                        (skipped @ [att_title attachmentMeta]) updatedAttachments w
                 else
                   (case uploadAttachment R (att_title attachmentMeta) data
                           (contentTypeOf E (att_title attachmentMeta)) w of
                      (Inl err, w1) \<Rightarrow>
                        (let (uploadErrorLog, w2) =
                               writeLog ''error-attachment-upload''
                                 [(''event'', JStr ''attachments_upload''),
                                  (''status'', JStr ''failed''), (''pageId'', JStr pageId),
                                  (''attachmentTitle'', JStr (att_title attachmentMeta)),
                                  (''error'', error_json E err)] w1
                         in (Inl err, w2))
                    | (Inr updatedAttachment, w1) \<Rightarrow>
                        (let (t, w2) = now w1;
                             newMeta =
                               attachmentMeta
                                 \<lparr>att_id := ai_id updatedAttachment,
                                  att_version :=
                                    (case ai_version updatedAttachment of
                                       Some v \<Rightarrow> v
                                     | None \<Rightarrow> plus_one (att_version attachmentMeta)),
                                  att_sha256 := sha256 E data,
                                  att_mediaType := ai_mediaType updatedAttachment,
                                  att_fileSize := ai_fileSize updatedAttachment,
                                  att_lastUploadedAt := Some t\<rparr>
                         in uploadEach E R pageId paths rest
                              (uploaded @ [att_title attachmentMeta]) skipped
                              (upsert newMeta updatedAttachments) w2))))"

definition uploadAttachments ::
  "env \<Rightarrow> remote \<Rightarrow> string \<Rightarrow> ConfluenceDataPaths \<Rightarrow> AttachmentFilterOptions option \<Rightarrow>
   world \<Rightarrow> (error + AttachmentsUploadResult) \<times> world" where
  "uploadAttachments E R pageId paths attachmentFilter w0 =
     (let titles = trimmedTitles attachmentFilter;
          filterSet = filterSet_of titles;
          (startLog, w1) =
            writeLog ''upload-attachments''
              [(''event'', JStr ''attachments_upload''), (''status'', JStr ''started''),
               (''pageId'', JStr pageId), (''filter'', filter_json titles)] w0;
          logFiles = [startLog]
      in case metaJson w1 of
           None \<Rightarrow> (Inl META_NOT_FOUND, w1)
         | Some meta \<Rightarrow>
            (let attachmentsToProcess =
                   (case filterSet of
                      Some fs \<Rightarrow>
                        filter (\<lambda>attachment. att_title attachment \<in> set fs) (pm_attachments meta)
                    | None \<Rightarrow> pm_attachments meta)
             in case uploadEach E R pageId paths attachmentsToProcess [] []
                       (pm_attachments meta) w1 of
                  (Inl err, w2) \<Rightarrow> (Inl err, w2)
                | (Inr (uploaded, skipped, updatedAttachments), w2) \<Rightarrow>
                    (Inr \<lparr>au_success = True, au_uploaded = uploaded, au_skipped = skipped,
                          au_metaFile = metaFile paths, au_logFiles = logFiles\<rparr>,
                     w2\<lparr>metaJson := Some (meta\<lparr>pm_attachments := updatedAttachments\<rparr>)\<rparr>)))"

text \<open>A tracked attachment whose file on disk has a digest other than the recorded one:
  the test \<^verbatim>\<open>localSha === attachmentMeta.sha256\<close> of \<^verbatim>\<open>uploadAttachments\<close> fails
  for it.\<close>

definition localChanged :: "env \<Rightarrow> ConfluenceDataPaths \<Rightarrow> world \<Rightarrow> AttachmentMeta \<Rightarrow> bool" where
  "localChanged E paths w a =
     (case files w (attachmentPath E paths (att_title a)) of
        None \<Rightarrow> False
      | Some data \<Rightarrow> sha256 E data \<noteq> att_sha256 a)"

subsection \<open>Fixtures\<close>

text \<open>
  A concrete setting for running the operations: an environment whose digest is a
  stand-in that maps different texts to different digests (the text itself), a cache
  directory, and an empty cache.
\<close>

definition example_env :: env where
  "example_env =
     \<lparr>sha256 = (\<lambda>s. s),
      path_join = (\<lambda>dir name. dir @ ''/'' @ name),
      contentTypeOf = (\<lambda>name. ''application/octet-stream''),
      error_json = (\<lambda>e. JNull)\<rparr>"

definition example_paths :: ConfluenceDataPaths where
  "example_paths =
     \<lparr>pageFile = ''data/123/page.xhtml'', metaFile = ''data/123/meta.json'',
      attachmentsDir = ''data/123/attachments'', logDir = ''data/log''\<rparr>"

definition empty_world :: world where
  "empty_world =
     \<lparr>metaJson = None, pageXhtml = None, files = (\<lambda>p. None), logs = [], calls = [],
      clock = 0\<rparr>"

text \<open>A remote service that holds one page and one attachment and does not change.\<close>

definition fixed_remote :: "ConfluencePage \<Rightarrow> RemoteAttachment list \<Rightarrow> remote" where
  "fixed_remote page atts =
     \<lparr>getPageR = (\<lambda>n. Inr page),
      updatePageR = (\<lambda>n title content version.
         Inr \<lparr>cp_title = title, cp_version = version + 1, cp_body = content\<rparr>),
      listAttachmentsR = (\<lambda>n. Inr atts),
      downloadAttachmentR = (\<lambda>n attachmentId. Inr ''bytes''),
      putAttachmentR = (\<lambda>n fileName fileData contentType.
         Inr \<lparr>ra_id = ''att1'', ra_title = fileName, ra_version = 1, ra_download = '''',
              ra_fileSize = int (length fileData), ra_mediaType = contentType\<rparr>)\<rparr>"

definition hello_page :: ConfluencePage where
  "hello_page = \<lparr>cp_title = ''Hello'', cp_version = 3, cp_body = ''<p>Hello</p>''\<rparr>"

definition table_page :: ConfluencePage where
  "table_page =
     \<lparr>cp_title = ''Table'', cp_version = 3,
      cp_body = ''<table><tbody><tr><td>a</td></tr></tbody></table>''\<rparr>"

text \<open>A cache that tracks \<^verbatim>\<open>old.png\<close> and \<^verbatim>\<open>a.png\<close>, both at version 1 and both
  on disk, and a remote listing that only names \<^verbatim>\<open>a.png\<close>, at version 2.\<close>

definition tracked_entry :: "string \<Rightarrow> AttachmentMeta" where
  "tracked_entry name =
     \<lparr>att_id = ''id-'' @ name, att_title = name, att_version = 1,
      att_downloadedAt = Some 0, att_storagePath = ''data/123/attachments/'' @ name,
      att_sha256 = ''x'', att_mediaType = ''image/png'', att_fileSize = 1,
      att_lastUploadedAt = None\<rparr>"

definition tracked_world :: world where
  "tracked_world =
     \<lparr>metaJson = Some
        \<lparr>pm_pageId = ''123'', pm_title = ''Hello'', pm_version = 3, pm_downloadedAt = 0,
         pm_storagePath = ''data/123/page.xhtml'', pm_storageSha256 = ''<p>Hello</p>'',
         pm_lastUploadedAt = None, pm_lastAttachmentScanAt = None,
         pm_attachments = [tracked_entry ''old.png'', tracked_entry ''a.png'']\<rparr>,
      pageXhtml = Some ''<p>Hello</p>'',
      files = (\<lambda>p. if p = ''data/123/attachments/old.png'' \<or> p = ''data/123/attachments/a.png''
                    then Some ''x'' else None),
      logs = [], calls = [], clock = 0\<rparr>"

definition remote_a_v2 :: RemoteAttachment where
  "remote_a_v2 =
     \<lparr>ra_id = ''id-a.png'', ra_title = ''a.png'', ra_version = 2,
      ra_download = ''/download/a.png'', ra_fileSize = 5, ra_mediaType = ''image/png''\<rparr>"

text \<open>The same cache after \<^verbatim>\<open>a.png\<close> was edited on disk.\<close>

definition edited_world :: world where
  "edited_world =
     tracked_world\<lparr>files := (files tracked_world)(''data/123/attachments/a.png'' \<mapsto> ''edited'')\<rparr>"

section \<open>Proofs: log masking\<close>

lemma map_of_assign:
  "map_of (assign k v rest) k' = (if k' = k \<and> k \<noteq> ''__proto__'' then Some v else map_of rest k')"
  by (simp add: assign_def)

lemma maskSensitive_keys:
  "map fst (maskSensitive e) = filter (\<lambda>k. k \<noteq> ''__proto__'') (map fst e)"
  by (induction e rule: maskSensitive.induct) (auto simp: assign_def split: json.splits)

lemma map_of_maskSensitive:
  "map_of (maskSensitive e) k =
     (if k = ''__proto__'' then None
      else map_option (\<lambda>v. if is_sensitive k then MASKED else mask_value v) (map_of e k))"
proof (induction e rule: maskSensitive.induct)
  case 1
  show ?case by simp
next
  case (2 key v rest)
  then show ?case
    by (cases "is_sensitive key"; cases v) (auto simp: mask_value_def assign_def)
qed

lemma get_path_mask_value:
  "list_all (\<lambda>k. \<not> is_sensitive k \<and> k \<noteq> ''__proto__'') ks \<Longrightarrow>
   get_path ks (mask_value v) = map_option mask_value (get_path ks v)"
proof (induction ks arbitrary: v)
  case Nil
  show ?case by simp
next
  case (Cons k ks)
  show ?case
  proof (cases v)
    case (JObj es)
    from Cons.prems have nk: "\<not> is_sensitive k" "k \<noteq> ''__proto__''"
      and rest: "list_all (\<lambda>k. \<not> is_sensitive k \<and> k \<noteq> ''__proto__'') ks"
      by simp_all
    show ?thesis
    proof (cases "map_of es k")
      case None
      with JObj nk show ?thesis
        by (simp add: mask_value_def map_of_maskSensitive)
    next
      case (Some u)
      with JObj nk Cons.IH [OF rest, of u] show ?thesis
        by (simp add: mask_value_def map_of_maskSensitive)
    qed
  qed (simp_all add: mask_value_def)
qed

lemma fully_masked_assign:
  "fully_masked rest \<Longrightarrow>
   (if is_sensitive k then v = MASKED else (case v of JObj es \<Rightarrow> fully_masked es | _ \<Rightarrow> True)) \<Longrightarrow>
   fully_masked (assign k v rest)"
  by (simp add: assign_def)

lemma fully_masked_maskSensitive: "fully_masked (maskSensitive e)"
  by (induction e rule: maskSensitive.induct)
     (auto simp: assign_def split: json.splits)

lemma get_path_snoc:
  "get_path (ks @ [k]) v =
     (case get_path ks v of
        Some (JObj es) \<Rightarrow> map_of es k
      | _ \<Rightarrow> None)"
proof (induction ks arbitrary: v)
  case Nil
  show ?case by (cases v) (auto split: option.splits)
next
  case (Cons a ks)
  show ?case by (cases v) (auto simp: Cons.IH split: option.splits)
qed

lemma map_of_obj_set:
  "map_of (obj_set k v es) k' = (if k' = k then Some v else map_of es k')"
  by (induction es) auto

lemma keys_obj_set:
  "map fst (obj_set k v es) = (if k \<in> set (map fst es) then map fst es else map fst es @ [k])"
  by (induction es) fastforce+

lemma not_sensitive_timestamp: "\<not> is_sensitive ''timestamp''" by code_simp

lemma fully_masked_obj_set:
  "fully_masked es \<Longrightarrow> \<not> is_sensitive k \<Longrightarrow> \<not> is_plain_object v \<Longrightarrow>
   fully_masked (obj_set k v es)"
  by (induction es) (auto simp: is_plain_object_def split: json.splits)

text \<open>An object reached through plain objects in a masked record has no
  \<^verbatim>\<open>__proto__\<close> entry.\<close>

lemma get_path_masked_object:
  "get_path ks (JObj (maskSensitive e)) = Some (JObj es) \<Longrightarrow> map_of es ''__proto__'' = None"
proof (induction ks arbitrary: e)
  case Nil
  then show ?case by (auto simp: map_of_maskSensitive)
next
  case (Cons k ks)
  from Cons.prems obtain u where u: "map_of (maskSensitive e) k = Some u"
    and p: "get_path ks u = Some (JObj es)"
    by (auto split: option.splits)
  from u obtain v0 where k: "k \<noteq> ''__proto__''" and v0: "map_of e k = Some v0"
    and uv: "u = (if is_sensitive k then MASKED else mask_value v0)"
    by (auto simp: map_of_maskSensitive split: if_splits)
  show ?case
  proof (cases "is_sensitive k")
    case True
    with uv p show ?thesis by (cases ks) (simp_all add: MASKED_def)
  next
    case False
    show ?thesis
    proof (cases v0)
      case (JObj e')
      with False uv have "u = JObj (maskSensitive e')" by (simp add: mask_value_def)
      with p Cons.IH [of e'] show ?thesis by simp
    next
      case JNull
      with False uv p show ?thesis by (cases ks) (simp_all add: mask_value_def)
    next
      case (JBool b)
      with False uv p show ?thesis by (cases ks) (simp_all add: mask_value_def)
    next
      case (JNum n)
      with False uv p show ?thesis by (cases ks) (simp_all add: mask_value_def)
    next
      case (JStr s)
      with False uv p show ?thesis by (cases ks) (simp_all add: mask_value_def)
    next
      case (JArr a)
      with False uv p show ?thesis by (cases ks) (simp_all add: mask_value_def)
    qed
  qed
qed

lemma writeLog_eq:
  "writeLog kind entry w =
     ((kind, clock w),
      w\<lparr>clock := Suc (Suc (clock w)),
        logs := logs w @ [((kind, clock w),
                  JObj (obj_set ''timestamp'' (JNum (int (Suc (clock w)))) (maskSensitive entry)))]\<rparr>)"
  by (simp add: writeLog_def now_def Let_def)

lemma written_entry_eq:
  "written_entry kind entry w =
     JObj (obj_set ''timestamp'' (JNum (int (Suc (clock w)))) (maskSensitive entry))"
  by (simp add: written_entry_def writeLog_eq)

lemma get_path_written:
  assumes "ks \<noteq> []" "hd ks \<noteq> ''timestamp''"
  shows "get_path ks (written_entry kind entry w) = get_path ks (JObj (maskSensitive entry))"
  using assms by (cases ks) (simp_all add: written_entry_eq map_of_obj_set)

lemma not_sensitive_proto: "\<not> is_sensitive ''__proto__''" by code_simp

text \<open>
  C9 (as the code has it). \<^verbatim>\<open>writeLog\<close> appends one record. Its keys are those of the
  event record without \<^verbatim>\<open>__proto__\<close>, in their order, followed by \<^verbatim>\<open>timestamp\<close>
  when the event record has none, and every sensitive key reachable through plain objects
  holds the marker. Along a path through nested plain objects whose earlier keys are
  neither sensitive nor \<^verbatim>\<open>__proto__\<close>, and that does not start at the top-level
  \<^verbatim>\<open>timestamp\<close>: a field with a sensitive key holds the marker in the record written; a
  field on a path with no sensitive key whose value is not a plain object is written
  unchanged. The top-level \<^verbatim>\<open>timestamp\<close> is the time of writing, whatever the event
  record held there, and no object reached through plain objects keeps a \<^verbatim>\<open>__proto__\<close>
  entry. Arrays are not entered (see the counterexample).
\<close>

theorem writeLog_masks_nested_objects:
  "logs (snd (writeLog kind entry w)) =
     logs w @ [(fst (writeLog kind entry w), written_entry kind entry w)] \<and>
   (case written_entry kind entry w of
      JObj c \<Rightarrow>
        fully_masked c \<and>
        map fst c =
          filter (\<lambda>k. k \<noteq> ''__proto__'') (map fst entry) @
          (if ''timestamp'' \<in> set (map fst entry) then [] else [''timestamp''])
    | _ \<Rightarrow> False) \<and>
   (list_all (\<lambda>k. \<not> is_sensitive k \<and> k \<noteq> ''__proto__'') ks \<and> is_sensitive k \<and>
      hd (ks @ [k]) \<noteq> ''timestamp'' \<and> get_path (ks @ [k]) (JObj entry) = Some v
    \<longrightarrow> get_path (ks @ [k]) (written_entry kind entry w) = Some MASKED) \<and>
   (ks \<noteq> [] \<and> list_all (\<lambda>k. \<not> is_sensitive k \<and> k \<noteq> ''__proto__'') ks \<and>
      hd ks \<noteq> ''timestamp'' \<and> \<not> is_plain_object v \<and> get_path ks (JObj entry) = Some v
    \<longrightarrow> get_path ks (written_entry kind entry w) = Some v) \<and>
   get_path [''timestamp''] (written_entry kind entry w) = Some (JNum (int (Suc (clock w)))) \<and>
   get_path (ks @ [''__proto__'']) (written_entry kind entry w) = None"
proof (intro conjI impI)
  show "logs (snd (writeLog kind entry w)) =
     logs w @ [(fst (writeLog kind entry w), written_entry kind entry w)]"
    by (simp add: written_entry_eq) (simp add: writeLog_eq)
  show "case written_entry kind entry w of
      JObj c \<Rightarrow>
        fully_masked c \<and>
        map fst c =
          filter (\<lambda>k. k \<noteq> ''__proto__'') (map fst entry) @
          (if ''timestamp'' \<in> set (map fst entry) then [] else [''timestamp''])
    | _ \<Rightarrow> False"
    by (simp add: written_entry_eq fully_masked_obj_set fully_masked_maskSensitive
        not_sensitive_timestamp is_plain_object_def keys_obj_set maskSensitive_keys)
  show "get_path [''timestamp''] (written_entry kind entry w) = Some (JNum (int (Suc (clock w))))"
    by (simp add: written_entry_eq map_of_obj_set)
next
  assume a: "list_all (\<lambda>k. \<not> is_sensitive k \<and> k \<noteq> ''__proto__'') ks \<and> is_sensitive k \<and>
      hd (ks @ [k]) \<noteq> ''timestamp'' \<and> get_path (ks @ [k]) (JObj entry) = Some v"
  then obtain es where p: "get_path ks (JObj entry) = Some (JObj es)" and m: "map_of es k = Some v"
    by (auto simp: get_path_snoc split: option.splits json.splits)
  from a have "get_path ks (mask_value (JObj entry)) = Some (mask_value (JObj es))"
    by (simp add: get_path_mask_value p)
  then have "get_path ks (JObj (maskSensitive entry)) = Some (JObj (maskSensitive es))"
    by (simp add: mask_value_def)
  moreover from a have "k \<noteq> ''__proto__''" using not_sensitive_proto by auto
  ultimately have "get_path (ks @ [k]) (JObj (maskSensitive entry)) = Some MASKED"
    using a m by (simp add: get_path_snoc map_of_maskSensitive)
  with a show "get_path (ks @ [k]) (written_entry kind entry w) = Some MASKED"
    by (simp add: get_path_written)
next
  assume a: "ks \<noteq> [] \<and> list_all (\<lambda>k. \<not> is_sensitive k \<and> k \<noteq> ''__proto__'') ks \<and>
      hd ks \<noteq> ''timestamp'' \<and> \<not> is_plain_object v \<and> get_path ks (JObj entry) = Some v"
  then have "get_path ks (mask_value (JObj entry)) = Some (mask_value v)"
    by (simp add: get_path_mask_value)
  moreover from a have "mask_value v = v"
    by (cases v) (simp_all add: mask_value_def is_plain_object_def)
  ultimately have "get_path ks (JObj (maskSensitive entry)) = Some v"
    by (simp add: mask_value_def)
  with a show "get_path ks (written_entry kind entry w) = Some v"
    by (simp add: get_path_written)
next
  show "get_path (ks @ [''__proto__'']) (written_entry kind entry w) = None"
  proof (cases "ks = [] \<or> hd ks = ''timestamp''")
    case True
    then show ?thesis
    proof
      assume "ks = []"
      then show ?thesis
        by (simp add: written_entry_eq map_of_obj_set map_of_maskSensitive)
    next
      assume h: "hd ks = ''timestamp''"
      show ?thesis
      proof (cases ks)
        case Nil
        then show ?thesis by (simp add: written_entry_eq map_of_obj_set map_of_maskSensitive)
      next
        case (Cons a r)
        with h show ?thesis
          by (cases r) (simp_all add: written_entry_eq map_of_obj_set)
      qed
    qed
  next
    case False
    then have "get_path ks (written_entry kind entry w) = get_path ks (JObj (maskSensitive entry))"
      by (simp add: get_path_written)
    then show ?thesis
      using get_path_masked_object [of ks entry]
      by (auto simp: get_path_snoc split: option.splits json.splits)
  qed
qed

text \<open>
  A record inside an array is not entered: its \<^verbatim>\<open>token\<close> field is written as it is.
\<close>

theorem writeLog_array_counterexample:
  "written_entry ''event'' [(''items'', JArr [JObj [(''token'', JStr ''secret'')]])] empty_world =
     JObj [(''items'', JArr [JObj [(''token'', JStr ''secret'')]]), (''timestamp'', JNum 1)]"
  by code_simp

lemma not_sensitive_user: "\<not> is_sensitive ''user''" by code_simp
lemma not_sensitive_name: "\<not> is_sensitive ''name''" by code_simp
lemma sensitive_apiToken: "is_sensitive ''apiToken''" by code_simp

theorem writeLog_masks_nested_objects_witness:
  "get_path [''user'', ''apiToken'']
     (written_entry ''event''
        [(''user'', JObj [(''apiToken'', JStr ''abc''), (''name'', JStr ''bob'')]),
         (''__proto__'', JNum 5), (''timestamp'', JStr ''old'')] empty_world)
     = Some MASKED \<and>
   get_path [''user'', ''name'']
     (written_entry ''event''
        [(''user'', JObj [(''apiToken'', JStr ''abc''), (''name'', JStr ''bob'')]),
         (''__proto__'', JNum 5), (''timestamp'', JStr ''old'')] empty_world)
     = Some (JStr ''bob'') \<and>
   get_path [''timestamp'']
     (written_entry ''event''
        [(''user'', JObj [(''apiToken'', JStr ''abc''), (''name'', JStr ''bob'')]),
         (''__proto__'', JNum 5), (''timestamp'', JStr ''old'')] empty_world)
     = Some (JNum 1) \<and>
   get_path [''__proto__'']
     (written_entry ''event''
        [(''user'', JObj [(''apiToken'', JStr ''abc''), (''name'', JStr ''bob'')]),
         (''__proto__'', JNum 5), (''timestamp'', JStr ''old'')] empty_world)
     = None"
proof -
  let ?e = "[(''user'', JObj [(''apiToken'', JStr ''abc''), (''name'', JStr ''bob'')]),
             (''__proto__'', JNum 5), (''timestamp'', JStr ''old'')]"
  let ?W = "written_entry ''event'' ?e empty_world"
  have 1: "get_path [''user'', ''apiToken''] ?W = Some MASKED"
    using writeLog_masks_nested_objects
      [where kind = "''event''" and entry = ?e and w = empty_world and ks = "[''user'']"
         and k = "''apiToken''" and v = "JStr ''abc''"]
      not_sensitive_user sensitive_apiToken
    by simp
  have 2: "get_path [''user'', ''name''] ?W = Some (JStr ''bob'')"
    using writeLog_masks_nested_objects
      [where kind = "''event''" and entry = ?e and w = empty_world
         and ks = "[''user'', ''name'']" and k = "''x''" and v = "JStr ''bob''"]
      not_sensitive_user not_sensitive_name
    by (simp add: is_plain_object_def)
  have 3: "get_path [''timestamp''] ?W = Some (JNum 1)"
    using writeLog_masks_nested_objects
      [where kind = "''event''" and entry = ?e and w = empty_world and ks = "[]"
         and k = "''x''" and v = "JNull"]
    by (simp add: empty_world_def)
  have 4: "get_path [''__proto__''] ?W = None"
    using writeLog_masks_nested_objects
      [where kind = "''event''" and entry = ?e and w = empty_world and ks = "[]"
         and k = "''x''" and v = "JNull"]
    by simp
  from 1 2 3 4 show ?thesis by (intro conjI)
qed


section \<open>Proofs: formatter\<close>


subsection \<open>Texts are left alone\<close>


lemma rmatch_Str_barrier:
  "barrier c \<Longrightarrow> p = CHR ''<'' \<or> p = CHR ''>'' \<or> p = CHR ''\<newline>'' \<Longrightarrow>
   rmatch (Str (p # ps)) (c # s) = []"
  by (auto simp: barrier_def)




subsection \<open>Matches are not empty\<close>












subsection \<open>The replacements one at a time\<close>























subsection \<open>Tags between two texts\<close>










subsection \<open>Whole documents\<close>

















section \<open>Proofs: body download and upload\<close>

lemma writeLog_fields [simp]:
  "metaJson (snd (writeLog k e w)) = metaJson w"
  "pageXhtml (snd (writeLog k e w)) = pageXhtml w"
  "files (snd (writeLog k e w)) = files w"
  "calls (snd (writeLog k e w)) = calls w"
  by (simp_all add: writeLog_def now_def Let_def split_def)

lemma downloadBody_ok:
  assumes "getPageR R (length (calls w)) = Inr page"
  shows "fst (downloadBody E R pageId paths w) =
           Inr \<lparr>bd_success = True,
                bd_skipped = (case metaJson w of None \<Rightarrow> False
                   | Some m \<Rightarrow> pm_version m = cp_version page \<and>
                       pm_storageSha256 m = sha256 E (cp_body page)),
                bd_pageFile = pageFile paths, bd_metaFile = metaFile paths,
                bd_logFiles = [fst (writeLog ''download-body''
              [(''event'', JStr ''body_download''), (''status'', JStr ''started''),
               (''pageId'', JStr pageId), (''targetFile'', JStr (pageFile paths))] w)]\<rparr>"
    and "calls (snd (downloadBody E R pageId paths w)) = calls w @ [GetPage]"
    and "pageXhtml (snd (downloadBody E R pageId paths w)) =
           (if (case metaJson w of None \<Rightarrow> False
                   | Some m \<Rightarrow> pm_version m = cp_version page \<and>
                       pm_storageSha256 m = sha256 E (cp_body page))
            then pageXhtml w else Some (formatTableXhtml (cp_body page)))"
    and "\<exists>m'. metaJson (snd (downloadBody E R pageId paths w)) = Some m' \<and>
           pm_version m' = cp_version page \<and> pm_storageSha256 m' = sha256 E (cp_body page)"
  using assms
  by (auto simp: downloadBody_def getPage_def Let_def split_def now_def split: option.splits)

text \<open>
  C5. Two calls of \<^verbatim>\<open>downloadBody\<close> in a row, the remote page being the same at
  both requests: the second call succeeds with \<^verbatim>\<open>skipped = true\<close> and leaves the
  body file as the first call left it. This holds from any state of the cache.
\<close>

theorem downloadBody_twice_skips:
  assumes "getPageR R (length (calls w0)) = Inr page"
    and "getPageR R (Suc (length (calls w0))) = Inr page"
  shows "(let w1 = snd (downloadBody E R pageId paths w0);
              r2 = fst (downloadBody E R pageId paths w1);
              w2 = snd (downloadBody E R pageId paths w1)
          in (\<exists>res. r2 = Inr res \<and> bd_success res \<and> bd_skipped res) \<and>
             pageXhtml w2 = pageXhtml w1)"
proof -
  let ?w1 = "snd (downloadBody E R pageId paths w0)"
  have c: "calls ?w1 = calls w0 @ [GetPage]"
    by (rule downloadBody_ok(2) [OF assms(1)])
  obtain m' where m: "metaJson ?w1 = Some m'" "pm_version m' = cp_version page"
      "pm_storageSha256 m' = sha256 E (cp_body page)"
    using downloadBody_ok(4) [OF assms(1)] by blast
  have g: "getPageR R (length (calls ?w1)) = Inr page"
    by (simp add: c assms(2))
  show ?thesis
    using downloadBody_ok(1) [OF g] downloadBody_ok(3) [OF g] m
    by (simp add: Let_def)
qed


theorem downloadBody_twice_skips_witness:
  "(let w1 = snd (downloadBody example_env (fixed_remote hello_page []) ''123'' example_paths empty_world);
        r2 = fst (downloadBody example_env (fixed_remote hello_page []) ''123'' example_paths w1);
        w2 = snd (downloadBody example_env (fixed_remote hello_page []) ''123'' example_paths w1)
    in (\<exists>res. r2 = Inr res \<and> bd_success res \<and> bd_skipped res) \<and>
       pageXhtml w2 = pageXhtml w1)"
  using downloadBody_twice_skips [of "fixed_remote hello_page []" empty_world hello_page
      example_env "''123''" example_paths]
  by (simp add: fixed_remote_def)

text \<open>
  C3. What \<^verbatim>\<open>downloadBody\<close> stores: after a successful call the recorded
  \<^verbatim>\<open>storageSha256\<close> is the digest of the remote body as it was received, while the
  body file written into an empty cache holds the formatted text. The instance below runs it on a
  page with a table: the digest recorded is that of the compact markup, the file holds the
  expanded markup.
\<close>

theorem downloadBody_stores_digest_of_raw_body:
  assumes "getPageR R (length (calls w)) = Inr page"
  shows "(let w' = snd (downloadBody E R pageId paths w)
          in (\<exists>m'. metaJson w' = Some m' \<and> pm_storageSha256 m' = sha256 E (cp_body page)) \<and>
             (metaJson w = None \<longrightarrow> pageXhtml w' = Some (formatTableXhtml (cp_body page))))"
  using downloadBody_ok(3) [OF assms, of E pageId paths] downloadBody_ok(4) [OF assms, of E pageId paths]
  by (auto simp: Let_def)

lemma format_table_page:
  "formatTableXhtml ''<table><tbody><tr><td>a</td></tr></tbody></table>'' =
     ''<table>\<newline><tbody>\<newline>  <tr>\<newline>    <td>a</td>\<newline>  </tr>\<newline></tbody>\<newline></table>\<newline>''"
  by code_simp

theorem downloadBody_stores_digest_of_raw_body_witness:
  "(let w' = snd (downloadBody example_env (fixed_remote table_page []) ''123'' example_paths empty_world)
    in (\<exists>m'. metaJson w' = Some m' \<and>
              pm_storageSha256 m' = ''<table><tbody><tr><td>a</td></tr></tbody></table>'') \<and>
       pageXhtml w' =
         Some ''<table>\<newline><tbody>\<newline>  <tr>\<newline>    <td>a</td>\<newline>  </tr>\<newline></tbody>\<newline></table>\<newline>'')"
  using downloadBody_stores_digest_of_raw_body [of "fixed_remote table_page []" empty_world
      table_page example_env "''123''" example_paths]
  by (simp add: fixed_remote_def empty_world_def example_env_def table_page_def format_table_page)

text \<open>
  C2. \<^verbatim>\<open>downloadBody\<close> into an empty cache followed at once by \<^verbatim>\<open>uploadBody\<close>,
  the remote page being the same at both requests: whenever the digest of the formatted
  body differs from the digest of the body as received, \<^verbatim>\<open>uploadBody\<close> calls the
  update endpoint, and a successful result has \<^verbatim>\<open>pageUpdated = true\<close>. The instance below is a
  page with a one-cell table.
\<close>

theorem upload_after_download_calls_update:
  assumes "metaJson w0 = None"
    and "getPageR R (length (calls w0)) = Inr page"
    and "getPageR R (Suc (length (calls w0))) = Inr page"
    and "sha256 E (formatTableXhtml (cp_body page)) \<noteq> sha256 E (cp_body page)"
  shows "(let w1 = snd (downloadBody E R pageId paths w0);
              r2 = fst (uploadBody E R pageId paths w1);
              w2 = snd (uploadBody E R pageId paths w1)
          in calls w2 = calls w0 @
               [GetPage, GetPage,
                UpdatePage (cp_title page)
                  (unformatTableXhtml (formatTableXhtml (cp_body page))) (cp_version page)] \<and>
             (\<forall>res. r2 = Inr res \<longrightarrow> bu_pageUpdated res))"
proof -
  let ?w1 = "snd (downloadBody E R pageId paths w0)"
  have c: "calls ?w1 = calls w0 @ [GetPage]"
    by (rule downloadBody_ok(2) [OF assms(2)])
  obtain m' where m: "metaJson ?w1 = Some m'" "pm_version m' = cp_version page"
      "pm_storageSha256 m' = sha256 E (cp_body page)"
    using downloadBody_ok(4) [OF assms(2)] by blast
  have p: "pageXhtml ?w1 = Some (formatTableXhtml (cp_body page))"
    using downloadBody_ok(3) [OF assms(2), of E pageId paths] assms(1) by simp
  have g: "getPageR R (length (calls ?w1)) = Inr page"
    by (simp add: c assms(3))
  show ?thesis
    using m p g c assms(4)
    by (auto simp: uploadBody_def uploadBody_failed_def getPage_def updatePage_def Let_def
        split_def now_def split: sum.splits)
qed

lemma eval_upload_after_download:
  "fst (uploadBody example_env (fixed_remote table_page []) ''123'' example_paths
          (snd (downloadBody example_env (fixed_remote table_page []) ''123'' example_paths
                  empty_world))) =
     Inr \<lparr>bu_success = True, bu_pageUpdated = True, bu_metaFile = ''data/123/meta.json'',
          bu_logFiles = [(''upload-body'', 3)]\<rparr>"
  by code_simp

theorem upload_after_download_calls_update_witness:
  "fst (uploadBody example_env (fixed_remote table_page []) ''123'' example_paths
          (snd (downloadBody example_env (fixed_remote table_page []) ''123'' example_paths
                  empty_world))) =
     Inr \<lparr>bu_success = True, bu_pageUpdated = True, bu_metaFile = ''data/123/meta.json'',
          bu_logFiles = [(''upload-body'', 3)]\<rparr> \<and>
   calls (snd (uploadBody example_env (fixed_remote table_page []) ''123'' example_paths
          (snd (downloadBody example_env (fixed_remote table_page []) ''123'' example_paths
                  empty_world)))) =
     [GetPage, GetPage,
      UpdatePage ''Table''
        (unformatTableXhtml (formatTableXhtml ''<table><tbody><tr><td>a</td></tr></tbody></table>''))
        3]"
proof -
  have h: "sha256 example_env (formatTableXhtml (cp_body table_page)) \<noteq>
           sha256 example_env (cp_body table_page)"
    by (simp add: example_env_def table_page_def format_table_page)
  have m: "metaJson empty_world = None" and c: "calls empty_world = []"
    by (simp_all add: empty_world_def)
  have g: "getPageR (fixed_remote table_page []) n = Inr table_page" for n
    by (simp add: fixed_remote_def)
  have t: "cp_title table_page = ''Table''" "cp_version table_page = 3"
    "cp_body table_page = ''<table><tbody><tr><td>a</td></tr></tbody></table>''"
    by (simp_all add: table_page_def)
  from upload_after_download_calls_update [OF m g g h, of "''123''" example_paths]
  have "calls (snd (uploadBody example_env (fixed_remote table_page []) ''123'' example_paths
          (snd (downloadBody example_env (fixed_remote table_page []) ''123'' example_paths
                  empty_world)))) =
     [GetPage, GetPage,
      UpdatePage ''Table''
        (unformatTableXhtml (formatTableXhtml ''<table><tbody><tr><td>a</td></tr></tbody></table>''))
        3]"
    unfolding Let_def c t by simp
  with eval_upload_after_download show ?thesis by (rule conjI)
qed

text \<open>
  C8. \<^verbatim>\<open>uploadBody\<close> without a metadata record fails with \<^verbatim>\<open>META_NOT_FOUND\<close>;
  with a metadata record and without a body file it fails with
  \<^verbatim>\<open>PAGE_FILE_NOT_FOUND\<close>; the two codes differ; and in both cases no request is sent
  and the metadata is left as it was.
\<close>

theorem uploadBody_requires_meta_and_body:
  "(metaJson w = None \<longrightarrow> fst (uploadBody E R pageId paths w) = Inl META_NOT_FOUND) \<and>
   (metaJson w \<noteq> None \<and> pageXhtml w = None \<longrightarrow>
      fst (uploadBody E R pageId paths w) = Inl PAGE_FILE_NOT_FOUND) \<and>
   (metaJson w = None \<or> pageXhtml w = None \<longrightarrow>
      calls (snd (uploadBody E R pageId paths w)) = calls w \<and>
      metaJson (snd (uploadBody E R pageId paths w)) = metaJson w) \<and>
   META_NOT_FOUND \<noteq> PAGE_FILE_NOT_FOUND"
  by (auto simp: uploadBody_def Let_def split_def split: option.splits)

text \<open>
  C4. When the version of the remote page differs from the version in the metadata,
  \<^verbatim>\<open>uploadBody\<close> fails with \<^verbatim>\<open>VERSION_CONFLICT\<close>; the only request made is the
  one that fetched the page (the update endpoint is not called), and the metadata and the
  body file are unchanged.
\<close>

theorem uploadBody_version_conflict:
  assumes "metaJson w = Some meta" and "pageXhtml w = Some body"
    and "getPageR R (length (calls w)) = Inr remotePage"
    and "cp_version remotePage \<noteq> pm_version meta"
  shows "fst (uploadBody E R pageId paths w) = Inl VERSION_CONFLICT \<and>
         calls (snd (uploadBody E R pageId paths w)) = calls w @ [GetPage] \<and>
         metaJson (snd (uploadBody E R pageId paths w)) = Some meta \<and>
         pageXhtml (snd (uploadBody E R pageId paths w)) = Some body"
  using assms
  by (simp add: uploadBody_def uploadBody_failed_def getPage_def Let_def split_def)

theorem uploadBody_requires_meta_and_body_witness:
  "fst (uploadBody example_env (fixed_remote hello_page []) ''123'' example_paths empty_world)
     = Inl META_NOT_FOUND \<and>
   fst (uploadBody example_env (fixed_remote hello_page []) ''123'' example_paths
          (tracked_world\<lparr>pageXhtml := None\<rparr>))
     = Inl PAGE_FILE_NOT_FOUND"
  using uploadBody_requires_meta_and_body [of empty_world example_env
      "fixed_remote hello_page []" "''123''" example_paths]
    uploadBody_requires_meta_and_body [of "tracked_world\<lparr>pageXhtml := None\<rparr>" example_env
      "fixed_remote hello_page []" "''123''" example_paths]
  by (simp add: empty_world_def tracked_world_def)

theorem uploadBody_version_conflict_witness:
  "fst (uploadBody example_env (fixed_remote (hello_page\<lparr>cp_version := 4\<rparr>) []) ''123''
          example_paths tracked_world) = Inl VERSION_CONFLICT \<and>
   calls (snd (uploadBody example_env (fixed_remote (hello_page\<lparr>cp_version := 4\<rparr>) []) ''123''
          example_paths tracked_world)) = [GetPage] \<and>
   metaJson (snd (uploadBody example_env (fixed_remote (hello_page\<lparr>cp_version := 4\<rparr>) []) ''123''
          example_paths tracked_world)) = metaJson tracked_world"
  using uploadBody_version_conflict [of tracked_world _ "''<p>Hello</p>''"
      "fixed_remote (hello_page\<lparr>cp_version := 4\<rparr>) []" "hello_page\<lparr>cp_version := 4\<rparr>"
      example_env "''123''" example_paths]
  by (simp add: tracked_world_def fixed_remote_def hello_page_def)

section \<open>Proofs: attachments\<close>

lemma now_fields [simp]:
  "metaJson (snd (now w)) = metaJson w"
  "pageXhtml (snd (now w)) = pageXhtml w"
  "files (snd (now w)) = files w"
  "calls (snd (now w)) = calls w"
  by (simp_all add: now_def)

lemma upsert_titles:
  "att_title ` set (upsert e xs) = insert (att_title e) (att_title ` set xs)"
  by (induction xs) auto

lemma downloadEach_skip:
  assumes "sameVersion (map_get att_title ex (ai_title i)) i"
    and "fileExists w (attachmentPath E paths (ai_title i))"
  shows "downloadEach E R pageId paths ex (i # infos) d s w =
         downloadEach E R pageId paths ex infos d (s @ [ai_title i]) w"
  using assms by (simp add: Let_def)

lemma downloadEach_fetch_failed:
  assumes "\<not> (sameVersion (map_get att_title ex (ai_title i)) i \<and>
              fileExists w (attachmentPath E paths (ai_title i)))"
    and "downloadAttachmentR R (length (calls w)) (ai_id i) = Inl err"
  shows "fst (downloadEach E R pageId paths ex (i # infos) d s w) = Inl err"
    and "files (snd (downloadEach E R pageId paths ex (i # infos) d s w)) = files w"
    and "metaJson (snd (downloadEach E R pageId paths ex (i # infos) d s w)) = metaJson w"
  using assms by (auto simp: Let_def split_def downloadAttachment_def)

lemma downloadEach_fetch_ok:
  assumes "\<not> (sameVersion (map_get att_title ex (ai_title i)) i \<and>
              fileExists w (attachmentPath E paths (ai_title i)))"
    and "downloadAttachmentR R (length (calls w)) (ai_id i) = Inr data"
  shows "downloadEach E R pageId paths ex (i # infos) d s w =
         downloadEach E R pageId paths ex infos (d @ [ai_title i]) s
           (writeFile (attachmentPath E paths (ai_title i)) data
              (w\<lparr>calls := calls w @ [DownloadAttachment (ai_id i)]\<rparr>))"
  using assms by (auto simp: Let_def split_def downloadAttachment_def)

lemma downloadEach_cases:
  obtains (skip) "sameVersion (map_get att_title ex (ai_title i)) i"
      "fileExists w (attachmentPath E paths (ai_title i))"
  | (failed) err where "\<not> (sameVersion (map_get att_title ex (ai_title i)) i \<and>
              fileExists w (attachmentPath E paths (ai_title i)))"
      "downloadAttachmentR R (length (calls w)) (ai_id i) = Inl err"
  | (fetched) data where "\<not> (sameVersion (map_get att_title ex (ai_title i)) i \<and>
              fileExists w (attachmentPath E paths (ai_title i)))"
      "downloadAttachmentR R (length (calls w)) (ai_id i) = Inr data"
  by (cases "downloadAttachmentR R (length (calls w)) (ai_id i)") blast+

lemma downloadEach_files_kept:
  "fileExists w p \<Longrightarrow>
   fileExists (snd (downloadEach E R pageId paths ex infos d s w)) p"
proof (induction infos arbitrary: d s w)
  case Nil
  then show ?case by simp
next
  case (Cons i infos)
  show ?case
  proof (cases rule: downloadEach_cases [where ex=ex and i=i and w=w and E=E and paths=paths and R=R])
    case skip
    show ?thesis
      unfolding downloadEach_skip [OF skip] by (rule Cons.IH [OF Cons.prems])
  next
    case (failed err)
    from Cons.prems show ?thesis
      unfolding fileExists_def downloadEach_fetch_failed(2) [OF failed] .
  next
    case (fetched data)
    let ?w1 = "writeFile (attachmentPath E paths (ai_title i)) data
                 (w\<lparr>calls := calls w @ [DownloadAttachment (ai_id i)]\<rparr>)"
    have "fileExists ?w1 p"
      using Cons.prems by (simp add: writeFile_def fileExists_def)
    from Cons.IH [OF this] show ?thesis
      unfolding downloadEach_fetch_ok [OF fetched] .
  qed
qed

lemma downloadEach_meta:
  "metaJson (snd (downloadEach E R pageId paths ex infos d s w)) = metaJson w"
proof (induction infos arbitrary: d s w)
  case Nil
  then show ?case by simp
next
  case (Cons i infos)
  show ?case
  proof (cases rule: downloadEach_cases [where ex=ex and i=i and w=w and E=E and paths=paths and R=R])
    case skip
    show ?thesis
      unfolding downloadEach_skip [OF skip] by (rule Cons.IH)
  next
    case (failed err)
    show ?thesis
      by (rule downloadEach_fetch_failed(3) [OF failed])
  next
    case (fetched data)
    show ?thesis
      unfolding downloadEach_fetch_ok [OF fetched] Cons.IH by (simp add: writeFile_def)
  qed
qed

lemma downloadEach_downloaded:
  "fst (downloadEach E R pageId paths ex infos d s w) = Inr (d', s') \<Longrightarrow>
   set d' \<subseteq> set d \<union> ai_title ` set infos"
proof (induction infos arbitrary: d s w)
  case Nil
  then show ?case by simp
next
  case (Cons i infos)
  show ?case
  proof (cases rule: downloadEach_cases [where ex=ex and i=i and w=w and E=E and paths=paths and R=R])
    case skip
    from Cons.prems have "fst (downloadEach E R pageId paths ex infos d (s @ [ai_title i]) w) = Inr (d', s')"
      unfolding downloadEach_skip [OF skip] .
    from Cons.IH [OF this] show ?thesis by auto
  next
    case (failed err)
    from Cons.prems show ?thesis
      unfolding downloadEach_fetch_failed(1) [OF failed] by simp
  next
    case (fetched data)
    from Cons.prems have "fst (downloadEach E R pageId paths ex infos (d @ [ai_title i]) s
           (writeFile (attachmentPath E paths (ai_title i)) data
              (w\<lparr>calls := calls w @ [DownloadAttachment (ai_id i)]\<rparr>))) = Inr (d', s')"
      unfolding downloadEach_fetch_ok [OF fetched] .
    from Cons.IH [OF this] show ?thesis by auto
  qed
qed

lemma removeMissing_meta [simp]:
  "metaJson (snd (removeMissing E paths ts ex rem w)) = metaJson w"
  by (induction ex arbitrary: rem w) (auto simp: Let_def safeUnlink_def)

lemma removeMissing_stays_deleted:
  "files w p = None \<Longrightarrow> files (snd (removeMissing E paths ts ex rem w)) p = None"
  by (induction ex arbitrary: rem w) (auto simp: Let_def safeUnlink_def)

lemma removeMissing_acc:
  "set rem \<subseteq> set (fst (removeMissing E paths ts ex rem w))"
proof (induction ex arbitrary: rem w)
  case Nil
  show ?case by simp
next
  case (Cons a ex)
  show ?case
    using Cons.IH [of "rem @ [att_title a]"] Cons.IH [of rem]
    by (auto simp: Let_def)
qed

lemma removeMissing_removes:
  "a \<in> set ex \<Longrightarrow> att_title a \<notin> set ts \<Longrightarrow>
   files (snd (removeMissing E paths ts ex rem w)) (attachmentPath E paths (att_title a)) = None \<and>
   att_title a \<in> set (fst (removeMissing E paths ts ex rem w))"
proof (induction ex arbitrary: rem w)
  case Nil
  then show ?case by simp
next
  case (Cons b ex)
  show ?case
  proof (cases "a = b")
    case True
    have "files (if fileExists w (attachmentPath E paths (att_title b))
                 then safeUnlink (attachmentPath E paths (att_title b)) w else w)
            (attachmentPath E paths (att_title b)) = None"
      by (simp add: fileExists_def safeUnlink_def)
    moreover have "att_title b \<in> set (rem @ [att_title b])" by simp
    ultimately show ?thesis
      using True Cons.prems(2) removeMissing_stays_deleted removeMissing_acc
      by (fastforce simp: Let_def)
  next
    case False
    with Cons.prems have "a \<in> set ex" by simp
    from Cons.IH [OF this Cons.prems(2)] show ?thesis
      by (simp add: Let_def)
  qed
qed

lemma recordDownloaded_titles:
  "recordDownloaded E paths infos ex t w ds upd = Inr res \<Longrightarrow>
   att_title ` set upd \<subseteq> att_title ` set res \<and>
   att_title ` set res \<subseteq> att_title ` set upd \<union> set ds"
proof (induction ds arbitrary: upd)
  case Nil
  then show ?case by simp
next
  case (Cons title ds)
  show ?case
  proof (cases "map_get ai_title infos title")
    case None
    with Cons.prems Cons.IH [of upd] show ?thesis by auto
  next
    case (Some info)
    with Cons.prems obtain data where d: "files w (attachmentPath E paths title) = Some data"
      by (auto simp: Let_def split: option.splits)
    from Cons.prems Some d obtain e where
      e: "att_title e = title" "recordDownloaded E paths infos ex t w ds (upsert e upd) = Inr res"
      by (simp add: Let_def) (metis AttachmentMeta.select_convs(2))
    from Cons.IH [OF e(2)] e(1) show ?thesis
      by (auto simp: upsert_titles)
  qed
qed


lemma getAttachments_fields [simp]:
  "metaJson (snd (getAttachments R w)) = metaJson w"
  "files (snd (getAttachments R w)) = files w"
  "calls (snd (getAttachments R w)) = calls w @ [GetAttachments]"
  "fst (getAttachments R w) =
     (case listAttachmentsR R (length (calls w)) of Inl e \<Rightarrow> Inl e
      | Inr results \<Rightarrow> Inr (map to_info results))"
  by (simp_all add: getAttachments_def)

lemma startingMeta_fields [simp]:
  "metaJson (snd (startingMeta R pageId paths ex w)) = metaJson w"
  "files (snd (startingMeta R pageId paths ex w)) = files w"
  by (simp_all add: startingMeta_def getPage_def now_def Let_def split_def
      split: option.splits sum.splits)

lemma startingMeta_Some [simp]:
  "startingMeta R pageId paths (Some m) w = (Inr m, w)"
  by (simp add: startingMeta_def)

lemma startingMeta_None_attachments:
  "fst (startingMeta R pageId paths None w) = Inr m \<Longrightarrow> pm_attachments m = []"
  by (auto simp: startingMeta_def getPage_def now_def Let_def split_def split: sum.splits)

lemma downloadAttachments_failed_fields [simp]:
  "metaJson (snd (downloadAttachments_failed E pageId err w)) = metaJson w"
  "files (snd (downloadAttachments_failed E pageId err w)) = files w"
  "fst (downloadAttachments_failed E pageId err w) = Inl err"
  by (simp_all add: downloadAttachments_failed_def Let_def split_def)

lemma fileExists_fields [simp]:
  "fileExists (snd (writeLog k e w)) p = fileExists w p"
  "fileExists (snd (now w)) p = fileExists w p"
  "fileExists (snd (getAttachments R w)) p = fileExists w p"
  "fileExists (snd (startingMeta R pageId paths ex w)) p = fileExists w p"
  "fileExists (snd (downloadAttachments_failed E pageId err w)) p = fileExists w p"
  "fileExists (w\<lparr>metaJson := m\<rparr>) p = fileExists w p"
  by (simp_all add: fileExists_def)

lemma filtered_files_kept:
  assumes "filterSet_of (trimmedTitles f) \<noteq> None" and "fileExists w p"
  shows "fileExists (snd (downloadAttachments E R pageId paths f w)) p"
  using assms
  by (auto simp: downloadAttachments_def Let_def split_def downloadEach_files_kept
      split: sum.splits prod.splits)


lemma filtered_meta_kept:
  assumes "filterSet_of (trimmedTitles f) \<noteq> None" and "metaJson w = Some meta"
  shows "\<exists>m'. metaJson (snd (downloadAttachments E R pageId paths f w)) = Some m' \<and>
           att_title ` set (pm_attachments meta) \<subseteq> att_title ` set (pm_attachments m')"
  using assms
  by (auto simp: downloadAttachments_def Let_def split_def downloadEach_meta
      split: sum.splits prod.splits dest!: recordDownloaded_titles)

lemma filtered_nothing_removed:
  assumes "filterSet_of (trimmedTitles f) \<noteq> None"
    and "fst (downloadAttachments E R pageId paths f w) = Inr res"
  shows "ad_removed res = []"
  using assms
  by (auto simp: downloadAttachments_def Let_def split_def
      split: sum.splits prod.splits)

lemma unfiltered_removes:
  assumes "filterSet_of (trimmedTitles f) = None" and "metaJson w = Some meta"
    and "listAttachmentsR R (length (calls w)) = Inr remoteList"
    and "a \<in> set (pm_attachments meta)"
    and "att_title a \<notin> ra_title ` set remoteList"
    and "fst (downloadAttachments E R pageId paths f w) = Inr res"
  shows "\<not> fileExists (snd (downloadAttachments E R pageId paths f w))
             (attachmentPath E paths (att_title a))"
    and "att_title a \<in> set (ad_removed res)"
    and "\<exists>m'. metaJson (snd (downloadAttachments E R pageId paths f w)) = Some m' \<and>
           att_title a \<notin> att_title ` set (pm_attachments m')"
proof -
  let ?w1 = "snd (writeLog ''download-attachments''
              [(''event'', JStr ''attachments_download''), (''status'', JStr ''started''),
               (''pageId'', JStr pageId), (''filter'', filter_json (trimmedTitles f))] w)"
  let ?w2 = "snd (getAttachments R ?w1)"
  let ?infos = "map to_info remoteList"
  let ?ex = "pm_attachments meta"
  let ?de = "downloadEach E R pageId paths ?ex ?infos [] [] ?w2"
  let ?rm = "removeMissing E paths (map ai_title ?infos) ?ex [] (snd ?de)"
  have t: "att_title a \<notin> set (map ai_title ?infos)"
    using assms(5) by (auto simp: to_info_def)
  obtain d s where de: "fst ?de = Inr (d, s)"
    using assms(1,2,3,6)
    by (cases "fst ?de")
       (auto simp: downloadAttachments_def Let_def split_def split: sum.splits)
  have dsub: "att_title a \<notin> set d"
    using downloadEach_downloaded [OF de] t by auto
  from removeMissing_removes [OF assms(4) t, of E paths "[]" "snd ?de"]
  have r1: "files (snd ?rm) (attachmentPath E paths (att_title a)) = None"
    and r2: "att_title a \<in> set (fst ?rm)" by simp_all
  let ?kept = "filter (\<lambda>attachment. att_title attachment \<notin> set (fst ?rm)) ?ex"
  have k: "att_title a \<notin> att_title ` set ?kept"
    using r2 by auto
  obtain upd where rd: "recordDownloaded E paths ?infos ?ex (fst (now (snd ?rm)))
      (snd (now (snd ?rm))) d ?kept = Inr upd"
    using assms(1,2,3,6) de
    by (cases "recordDownloaded E paths ?infos ?ex (fst (now (snd ?rm)))
      (snd (now (snd ?rm))) d ?kept")
       (auto simp: downloadAttachments_def Let_def split_def split: sum.splits)
  have u: "att_title a \<notin> att_title ` set upd"
    using recordDownloaded_titles [OF rd] k dsub by auto
  show "\<not> fileExists (snd (downloadAttachments E R pageId paths f w))
             (attachmentPath E paths (att_title a))"
    using assms(1,2,3) de rd r1
    by (simp add: downloadAttachments_def Let_def split_def fileExists_def)
  show "att_title a \<in> set (ad_removed res)"
    using assms(1,2,3,6) de rd r2
    by (auto simp: downloadAttachments_def Let_def split_def)
  show "\<exists>m'. metaJson (snd (downloadAttachments E R pageId paths f w)) = Some m' \<and>
           att_title a \<notin> att_title ` set (pm_attachments m')"
    using assms(1,2,3) de rd u
    by (simp add: downloadAttachments_def Let_def split_def)
qed

text \<open>
  C6. \<^verbatim>\<open>downloadAttachments\<close> without a filter, when it succeeds: every tracked
  attachment that the remote listing does not name has no file afterwards, is reported in
  \<^verbatim>\<open>removed\<close> and has no entry in the metadata. With a filter that names at least one
  title, whatever the outcome: every file that existed still exists, every tracked title is
  still tracked, and \<^verbatim>\<open>removed\<close> is empty.
\<close>

theorem downloadAttachments_removes_only_without_filter:
  "(metaJson w = Some meta \<and> listAttachmentsR R (length (calls w)) = Inr remoteList \<and>
    a \<in> set (pm_attachments meta) \<and> att_title a \<notin> ra_title ` set remoteList \<and>
    fst (downloadAttachments E R pageId paths None w) = Inr res
    \<longrightarrow> \<not> fileExists (snd (downloadAttachments E R pageId paths None w))
            (attachmentPath E paths (att_title a)) \<and>
        att_title a \<in> set (ad_removed res) \<and>
        (\<exists>m'. metaJson (snd (downloadAttachments E R pageId paths None w)) = Some m' \<and>
              att_title a \<notin> att_title ` set (pm_attachments m'))) \<and>
   (fileExists w p
    \<longrightarrow> fileExists
          (snd (downloadAttachments E R pageId paths (Some \<lparr>includeTitles = Some (t # ts)\<rparr>) w)) p) \<and>
   (metaJson w = Some meta
    \<longrightarrow> (\<exists>m'. metaJson
               (snd (downloadAttachments E R pageId paths (Some \<lparr>includeTitles = Some (t # ts)\<rparr>) w))
               = Some m' \<and>
              att_title ` set (pm_attachments meta) \<subseteq> att_title ` set (pm_attachments m'))) \<and>
   (fst (downloadAttachments E R pageId paths (Some \<lparr>includeTitles = Some (t # ts)\<rparr>) w) = Inr res'
    \<longrightarrow> ad_removed res' = [])"
proof -
  have n: "filterSet_of (trimmedTitles None) = None"
    by (simp add: filterSet_of_def trimmedTitles_def)
  have f: "filterSet_of (trimmedTitles (Some \<lparr>includeTitles = Some (t # ts)\<rparr>)) \<noteq> None"
    by (simp add: filterSet_of_def trimmedTitles_def)
  show ?thesis
    using unfiltered_removes [OF n, of w meta R remoteList a E pageId paths res]
      filtered_files_kept [OF f, of w p E R pageId paths]
      filtered_meta_kept [OF f, of w meta E R pageId paths]
      filtered_nothing_removed [OF f, of E R pageId paths w res']
    by blast
qed

lemma eval_unfiltered:
  "fst (downloadAttachments example_env (fixed_remote hello_page [remote_a_v2]) ''123''
          example_paths None tracked_world) =
     Inr \<lparr>ad_success = True, ad_downloaded = [], ad_skipped = [''a.png''],
          ad_removed = [''old.png''], ad_metaFile = ''data/123/meta.json'',
          ad_logFiles = [(''download-attachments'', 0)]\<rparr>"
  by code_simp


lemma eval_filtered:
  "fst (downloadAttachments example_env (fixed_remote hello_page [remote_a_v2]) ''123''
          example_paths (Some \<lparr>includeTitles = Some [''a.png'']\<rparr>) tracked_world) =
     Inr \<lparr>ad_success = True, ad_downloaded = [], ad_skipped = [''a.png''],
          ad_removed = [], ad_metaFile = ''data/123/meta.json'',
          ad_logFiles = [(''download-attachments'', 0)]\<rparr>"
  by code_simp

theorem downloadAttachments_removes_only_without_filter_witness:
  "fst (downloadAttachments example_env (fixed_remote hello_page [remote_a_v2]) ''123''
          example_paths None tracked_world) =
     Inr \<lparr>ad_success = True, ad_downloaded = [], ad_skipped = [''a.png''],
          ad_removed = [''old.png''], ad_metaFile = ''data/123/meta.json'',
          ad_logFiles = [(''download-attachments'', 0)]\<rparr> \<and>
   fileExists tracked_world ''data/123/attachments/old.png'' \<and>
   \<not> fileExists
         (snd (downloadAttachments example_env (fixed_remote hello_page [remote_a_v2]) ''123''
                 example_paths None tracked_world))
         ''data/123/attachments/old.png'' \<and>
   (\<exists>m'. metaJson
           (snd (downloadAttachments example_env (fixed_remote hello_page [remote_a_v2]) ''123''
                   example_paths None tracked_world)) = Some m' \<and>
         ''old.png'' \<notin> att_title ` set (pm_attachments m')) \<and>
   fileExists
     (snd (downloadAttachments example_env (fixed_remote hello_page [remote_a_v2]) ''123''
             example_paths (Some \<lparr>includeTitles = Some [''a.png'']\<rparr>) tracked_world))
     ''data/123/attachments/old.png'' \<and>
   (\<exists>m'. metaJson
           (snd (downloadAttachments example_env (fixed_remote hello_page [remote_a_v2]) ''123''
                   example_paths (Some \<lparr>includeTitles = Some [''a.png'']\<rparr>) tracked_world))
           = Some m' \<and>
         ''old.png'' \<in> att_title ` set (pm_attachments m'))"
proof -
  let ?R = "fixed_remote hello_page [remote_a_v2]"
  let ?meta = "\<lparr>pm_pageId = ''123'', pm_title = ''Hello'', pm_version = 3, pm_downloadedAt = 0,
         pm_storagePath = ''data/123/page.xhtml'', pm_storageSha256 = ''<p>Hello</p>'',
         pm_lastUploadedAt = None, pm_lastAttachmentScanAt = None,
         pm_attachments = [tracked_entry ''old.png'', tracked_entry ''a.png'']\<rparr>"
  have m: "metaJson tracked_world = Some ?meta"
    by (simp add: tracked_world_def)
  have l: "listAttachmentsR ?R (length (calls tracked_world)) = Inr [remote_a_v2]"
    by (simp add: fixed_remote_def)
  have a: "tracked_entry ''old.png'' \<in> set (pm_attachments ?meta)"
    by simp
  have n: "att_title (tracked_entry ''old.png'') \<notin> ra_title ` set [remote_a_v2]"
    by (simp add: tracked_entry_def remote_a_v2_def)
  have p: "attachmentPath example_env example_paths ''old.png'' =
           ''data/123/attachments/old.png''"
    by (simp add: attachmentPath_def example_env_def example_paths_def)
  have t: "att_title (tracked_entry ''old.png'') = ''old.png''"
    by (simp add: tracked_entry_def)
  have e: "fileExists tracked_world ''data/123/attachments/old.png''"
    by (simp add: fileExists_def tracked_world_def)
  note th = downloadAttachments_removes_only_without_filter
      [of tracked_world ?meta ?R "[remote_a_v2]" "tracked_entry ''old.png''" example_env
          "''123''" example_paths
          "\<lparr>ad_success = True, ad_downloaded = [], ad_skipped = [''a.png''],
            ad_removed = [''old.png''], ad_metaFile = ''data/123/meta.json'',
            ad_logFiles = [(''download-attachments'', 0)]\<rparr>"
          "''data/123/attachments/old.png''" "''a.png''" "[]"]
  from th m l a n eval_unfiltered
  have 1: "\<not> fileExists
         (snd (downloadAttachments example_env ?R ''123'' example_paths None tracked_world))
         (attachmentPath example_env example_paths (att_title (tracked_entry ''old.png'')))"
    and 2: "\<exists>m'. metaJson
           (snd (downloadAttachments example_env ?R ''123'' example_paths None tracked_world))
             = Some m' \<and>
         att_title (tracked_entry ''old.png'') \<notin> att_title ` set (pm_attachments m')"
    by blast+
  from th e
  have 3: "fileExists
     (snd (downloadAttachments example_env ?R ''123''
             example_paths (Some \<lparr>includeTitles = Some [''a.png'']\<rparr>) tracked_world))
     ''data/123/attachments/old.png''"
    by blast
  from th m
  have 4: "\<exists>m'. metaJson
           (snd (downloadAttachments example_env ?R ''123''
                   example_paths (Some \<lparr>includeTitles = Some [''a.png'']\<rparr>) tracked_world))
           = Some m' \<and>
         att_title ` set (pm_attachments ?meta) \<subseteq> att_title ` set (pm_attachments m')"
    by blast
  from 4 have 5: "\<exists>m'. metaJson
           (snd (downloadAttachments example_env ?R ''123''
                   example_paths (Some \<lparr>includeTitles = Some [''a.png'']\<rparr>) tracked_world))
           = Some m' \<and>
         ''old.png'' \<in> att_title ` set (pm_attachments m')"
    using t by auto
  show ?thesis
    by (intro conjI) (rule eval_unfiltered e 1 [unfolded t p] 2 [unfolded t] 3 5)+
qed

lemma map_get_None_iff: "(map_get key xs k = None) = (k \<notin> key ` set xs)"
  by (auto simp: map_get_def find_None_iff)

lemma sameVersion_to_info:
  "sameVersion (map_get att_title ex (ra_title ra)) (to_info ra) =
     (ra_title ra \<in> att_title ` set ex)"
  using map_get_None_iff [of att_title ex "ra_title ra"]
  by (cases "map_get att_title ex (ra_title ra)") (auto simp: sameVersion_def to_info_def)

lemma downloadEach_all_skipped:
  assumes "list_all (\<lambda>ra. ra_title ra \<in> att_title ` set ex \<and>
              fileExists w (attachmentPath E paths (ra_title ra))) ras"
  shows "downloadEach E R pageId paths ex (map to_info ras) d s w =
           (Inr (d, s @ map ra_title ras), w)"
  using assms
proof (induction ras arbitrary: s)
  case Nil
  show ?case by simp
next
  case (Cons ra ras)
  have t: "ai_title (to_info ra) = ra_title ra" by (simp add: to_info_def)
  from Cons.prems have 1: "sameVersion (map_get att_title ex (ai_title (to_info ra))) (to_info ra)"
    and 2: "fileExists w (attachmentPath E paths (ai_title (to_info ra)))"
    and 3: "list_all (\<lambda>ra. ra_title ra \<in> att_title ` set ex \<and>
              fileExists w (attachmentPath E paths (ra_title ra))) ras"
    by (simp_all add: t sameVersion_to_info)
  show ?case
    using downloadEach_skip [OF 1 2, of R pageId "map to_info ras" d s] Cons.IH [OF 3, of "s @ [ra_title ra]"]
    by (simp add: t)
qed

lemma removeMissing_calls [simp]:
  "calls (snd (removeMissing E paths ts ex rem w)) = calls w"
  by (induction ex arbitrary: rem w) (auto simp: Let_def safeUnlink_def)

text \<open>
  C7. The listing the client returns carries no version, so the version test always
  succeeds for a tracked title: when every listed attachment is tracked and has its file,
  \<^verbatim>\<open>downloadAttachments\<close> skips them all, whatever versions the remote service holds,
  and requests no download. In the instance below the remote attachment is at version 2 and the
  tracked entry at version 1.
\<close>

theorem downloadAttachments_never_refetches_tracked_file:
  assumes "metaJson w = Some meta"
    and "listAttachmentsR R (length (calls w)) = Inr remoteList"
    and "list_all (\<lambda>ra. ra_title ra \<in> att_title ` set (pm_attachments meta) \<and>
                         fileExists w (attachmentPath E paths (ra_title ra))) remoteList"
  shows "(\<exists>res. fst (downloadAttachments E R pageId paths None w) = Inr res \<and>
                ad_downloaded res = [] \<and> ad_skipped res = map ra_title remoteList) \<and>
         calls (snd (downloadAttachments E R pageId paths None w)) = calls w @ [GetAttachments]"
proof -
  let ?w1 = "snd (writeLog ''download-attachments''
              [(''event'', JStr ''attachments_download''), (''status'', JStr ''started''),
               (''pageId'', JStr pageId), (''filter'', filter_json (trimmedTitles None))] w)"
  let ?w2 = "snd (getAttachments R ?w1)"
  have "list_all (\<lambda>ra. ra_title ra \<in> att_title ` set (pm_attachments meta) \<and>
                         fileExists ?w2 (attachmentPath E paths (ra_title ra))) remoteList"
    using assms(3) by simp
  from downloadEach_all_skipped [OF this, of R pageId "[]" "[]"]
  show ?thesis
    using assms(1,2)
    by (simp add: downloadAttachments_def Let_def split_def filterSet_of_def trimmedTitles_def)
qed

theorem downloadAttachments_never_refetches_tracked_file_witness:
  "att_version (tracked_entry ''a.png'') < ra_version remote_a_v2 \<and>
   (\<exists>res. fst (downloadAttachments example_env (fixed_remote hello_page [remote_a_v2]) ''123''
                  example_paths None tracked_world) = Inr res \<and>
          ad_downloaded res = [] \<and> ad_skipped res = [''a.png'']) \<and>
   calls (snd (downloadAttachments example_env (fixed_remote hello_page [remote_a_v2]) ''123''
                  example_paths None tracked_world)) = [GetAttachments]"
proof -
  let ?meta = "\<lparr>pm_pageId = ''123'', pm_title = ''Hello'', pm_version = 3, pm_downloadedAt = 0,
         pm_storagePath = ''data/123/page.xhtml'', pm_storageSha256 = ''<p>Hello</p>'',
         pm_lastUploadedAt = None, pm_lastAttachmentScanAt = None,
         pm_attachments = [tracked_entry ''old.png'', tracked_entry ''a.png'']\<rparr>"
  have m: "metaJson tracked_world = Some ?meta"
    by (simp add: tracked_world_def)
  have l: "listAttachmentsR (fixed_remote hello_page [remote_a_v2]) (length (calls tracked_world))
             = Inr [remote_a_v2]"
    by (simp add: fixed_remote_def)
  have a: "list_all (\<lambda>ra. ra_title ra \<in> att_title ` set (pm_attachments ?meta) \<and>
             fileExists tracked_world (attachmentPath example_env example_paths (ra_title ra)))
             [remote_a_v2]"
    by (simp add: remote_a_v2_def tracked_entry_def fileExists_def tracked_world_def
        attachmentPath_def example_env_def example_paths_def)
  have v: "att_version (tracked_entry ''a.png'') < ra_version remote_a_v2"
    by (simp add: tracked_entry_def remote_a_v2_def)
  have c: "calls tracked_world = []" by (simp add: tracked_world_def)
  have r: "ra_title remote_a_v2 = ''a.png''" by (simp add: remote_a_v2_def)
  from downloadAttachments_never_refetches_tracked_file [OF m l a, of "''123''"] v
  show ?thesis
    by (simp add: c r)
qed

lemma downloadEach_candidates:
  "fst (downloadEach E R pageId paths ex infos d s w) = Inr (d', s') \<Longrightarrow>
   set d' \<union> set s' = set d \<union> set s \<union> ai_title ` set infos"
proof (induction infos arbitrary: d s w)
  case Nil
  then show ?case by auto
next
  case (Cons i infos)
  show ?case
  proof (cases rule: downloadEach_cases [where ex=ex and i=i and w=w and E=E and paths=paths and R=R])
    case skip
    from Cons.prems have "fst (downloadEach E R pageId paths ex infos d (s @ [ai_title i]) w) = Inr (d', s')"
      unfolding downloadEach_skip [OF skip] .
    from Cons.IH [OF this] show ?thesis by auto
  next
    case (failed err)
    from Cons.prems show ?thesis
      unfolding downloadEach_fetch_failed(1) [OF failed] by simp
  next
    case (fetched data)
    from Cons.prems have "fst (downloadEach E R pageId paths ex infos (d @ [ai_title i]) s
           (writeFile (attachmentPath E paths (ai_title i)) data
              (w\<lparr>calls := calls w @ [DownloadAttachment (ai_id i)]\<rparr>))) = Inr (d', s')"
      unfolding downloadEach_fetch_ok [OF fetched] .
    from Cons.IH [OF this] show ?thesis by auto
  qed
qed

lemma unfiltered_candidates:
  assumes "filterSet_of (trimmedTitles f) = None"
    and "listAttachmentsR R (length (calls w)) = Inr remoteList"
    and "fst (downloadAttachments E R pageId paths f w) = Inr res"
  shows "set (ad_downloaded res) \<union> set (ad_skipped res) = ra_title ` set remoteList"
proof -
  let ?w1 = "snd (writeLog ''download-attachments''
              [(''event'', JStr ''attachments_download''), (''status'', JStr ''started''),
               (''pageId'', JStr pageId), (''filter'', filter_json (trimmedTitles f))] w)"
  let ?w2 = "snd (getAttachments R ?w1)"
  let ?sm = "startingMeta R pageId paths (metaJson w) ?w2"
  let ?infos = "map to_info remoteList"
  obtain m where sm: "fst ?sm = Inr m"
    using assms
    by (cases "fst ?sm") (auto simp: downloadAttachments_def Let_def split_def split: sum.splits)
  let ?de = "downloadEach E R pageId paths (pm_attachments m) ?infos [] [] (snd ?sm)"
  obtain d s where de: "fst ?de = Inr (d, s)"
    using assms sm
    by (cases "fst ?de") (auto simp: downloadAttachments_def Let_def split_def split: sum.splits)
  have r: "ad_downloaded res = d" "ad_skipped res = s"
    using assms sm de
    by (auto simp: downloadAttachments_def Let_def split_def split: sum.splits)
  have "ai_title ` set ?infos = ra_title ` set remoteList"
    by (auto simp: to_info_def image_iff)
  with downloadEach_candidates [OF de] r show ?thesis by simp
qed

lemma uploadAttachment_fields [simp]:
  "metaJson (snd (uploadAttachment R n d c w)) = metaJson w"
  "files (snd (uploadAttachment R n d c w)) = files w"
  by (simp_all add: uploadAttachment_def getAttachments_def split: sum.splits)

lemma uploadAttachment_calls:
  "fst (uploadAttachment R n d c w) = Inr u \<Longrightarrow>
   calls (snd (uploadAttachment R n d c w)) = calls w @ [GetAttachments, PutAttachment n d c]"
  by (auto simp: uploadAttachment_def getAttachments_def split: sum.splits)

lemma uploadEach_missing:
  assumes "files w (attachmentPath E paths (att_title a)) = None"
  shows "fst (uploadEach E R pageId paths (a # rest) up sk upd w) = Inl ATTACHMENT_FILE_NOT_FOUND"
  using assms by (simp add: Let_def split_def)

lemma uploadEach_skip:
  assumes "files w (attachmentPath E paths (att_title a)) = Some data"
    and "sha256 E data = att_sha256 a"
  shows "uploadEach E R pageId paths (a # rest) up sk upd w =
         uploadEach E R pageId paths rest up (sk @ [att_title a]) upd w"
  using assms by (simp add: Let_def)

lemma uploadEach_failed:
  assumes "files w (attachmentPath E paths (att_title a)) = Some data"
    and "sha256 E data \<noteq> att_sha256 a"
    and "fst (uploadAttachment R (att_title a) data (contentTypeOf E (att_title a)) w) = Inl err"
  shows "fst (uploadEach E R pageId paths (a # rest) up sk upd w) = Inl err"
  using assms by (simp add: Let_def split_def split: prod.splits sum.splits)

lemma uploadEach_sent:
  assumes "files w (attachmentPath E paths (att_title a)) = Some data"
    and "sha256 E data \<noteq> att_sha256 a"
    and "fst (uploadAttachment R (att_title a) data (contentTypeOf E (att_title a)) w) = Inr u"
  shows "\<exists>upd' w'. uploadEach E R pageId paths (a # rest) up sk upd w =
           uploadEach E R pageId paths rest (up @ [att_title a]) sk upd' w' \<and>
           files w' = files w \<and>
           calls w' = calls w @ [GetAttachments,
                         PutAttachment (att_title a) data (contentTypeOf E (att_title a))]"
proof -
  obtain r b where ua: "uploadAttachment R (att_title a) data (contentTypeOf E (att_title a)) w = (r, b)"
    by (cases "uploadAttachment R (att_title a) data (contentTypeOf E (att_title a)) w")
  with assms(3) have r: "r = Inr u" by simp
  from ua uploadAttachment_calls [OF assms(3)]
  have c: "calls b = calls w @ [GetAttachments,
                         PutAttachment (att_title a) data (contentTypeOf E (att_title a))]"
    by simp
  from ua uploadAttachment_fields(2) [of R "att_title a" data "contentTypeOf E (att_title a)" w]
  have f: "files b = files w" by simp
  have "\<exists>upd'. uploadEach E R pageId paths (a # rest) up sk upd w =
           uploadEach E R pageId paths rest (up @ [att_title a]) sk upd' (b\<lparr>clock := Suc (clock b)\<rparr>)"
    using assms(1,2) ua r by (intro exI) (simp add: Let_def now_def)
  then obtain upd' where "uploadEach E R pageId paths (a # rest) up sk upd w =
           uploadEach E R pageId paths rest (up @ [att_title a]) sk upd' (b\<lparr>clock := Suc (clock b)\<rparr>)"
    by blast
  moreover have "files (b\<lparr>clock := Suc (clock b)\<rparr>) = files w" using f by simp
  moreover have "calls (b\<lparr>clock := Suc (clock b)\<rparr>) = calls w @ [GetAttachments,
                         PutAttachment (att_title a) data (contentTypeOf E (att_title a))]"
    using c by simp
  ultimately show ?thesis by blast
qed

lemma uploadEach_result:
  "fst (uploadEach E R pageId paths atts up sk upd w) = Inr (up', sk', upd') \<Longrightarrow>
   up' = up @ map att_title (filter (localChanged E paths w) atts) \<and>
   sk' = sk @ map att_title (filter (\<lambda>a. \<not> localChanged E paths w a) atts) \<and>
   set (calls w) \<subseteq> set (calls (snd (uploadEach E R pageId paths atts up sk upd w))) \<and>
   (\<forall>a\<in>set atts. \<forall>data. files w (attachmentPath E paths (att_title a)) = Some data \<and>
        sha256 E data \<noteq> att_sha256 a \<longrightarrow>
        PutAttachment (att_title a) data (contentTypeOf E (att_title a))
          \<in> set (calls (snd (uploadEach E R pageId paths atts up sk upd w))))"
proof (induction atts arbitrary: up sk upd w)
  case Nil
  then show ?case by simp
next
  case (Cons a rest)
  let ?p = "attachmentPath E paths (att_title a)"
  show ?case
  proof (cases "files w ?p")
    case None
    with Cons.prems uploadEach_missing [OF None, of R pageId rest up sk upd] show ?thesis
      by (simp del: uploadEach.simps)
  next
    case (Some data)
    show ?thesis
    proof (cases "sha256 E data = att_sha256 a")
      case True
      note eq = uploadEach_skip [OF Some True]
      from Cons.prems have "fst (uploadEach E R pageId paths rest up (sk @ [att_title a]) upd w) =
          Inr (up', sk', upd')"
        unfolding eq .
      from Cons.IH [OF this] Some True show ?thesis
        unfolding eq by (auto simp: localChanged_def)
    next
      case False
      let ?ua = "uploadAttachment R (att_title a) data (contentTypeOf E (att_title a)) w"
      show ?thesis
      proof (cases "fst ?ua")
        case (Inl err)
        with Cons.prems uploadEach_failed [OF Some False Inl, of pageId rest up sk upd] show ?thesis
          by (simp del: uploadEach.simps)
      next
        case (Inr u)
        from uploadEach_sent [OF Some False Inr, of pageId rest up sk upd]
        obtain upd1 w1 where
          eq: "uploadEach E R pageId paths (a # rest) up sk upd w =
               uploadEach E R pageId paths rest (up @ [att_title a]) sk upd1 w1"
          and f: "files w1 = files w"
          and c: "calls w1 = calls w @ [GetAttachments,
                         PutAttachment (att_title a) data (contentTypeOf E (att_title a))]"
          by blast
        from Cons.prems have "fst (uploadEach E R pageId paths rest (up @ [att_title a]) sk upd1 w1) =
            Inr (up', sk', upd')"
          unfolding eq .
        note ih = Cons.IH [OF this]
        have lc: "localChanged E paths w1 = localChanged E paths w"
          by (rule ext) (simp add: localChanged_def f)
        from ih Some False show ?thesis
          unfolding eq lc f by (auto simp: localChanged_def c)
      qed
    qed
  qed
qed

lemma unfiltered_uploads:
  assumes "filterSet_of (trimmedTitles f) = None" and "metaJson w = Some meta"
    and "fst (uploadAttachments E R pageId paths f w) = Inr res"
  shows "au_uploaded res = map att_title (filter (localChanged E paths w) (pm_attachments meta))"
    and "au_skipped res =
           map att_title (filter (\<lambda>a. \<not> localChanged E paths w a) (pm_attachments meta))"
    and "\<forall>a\<in>set (pm_attachments meta). localChanged E paths w a \<longrightarrow>
           (\<exists>data. files w (attachmentPath E paths (att_title a)) = Some data \<and>
              PutAttachment (att_title a) data (contentTypeOf E (att_title a))
                \<in> set (calls (snd (uploadAttachments E R pageId paths f w))))"
proof -
  let ?w1 = "snd (writeLog ''upload-attachments''
              [(''event'', JStr ''attachments_upload''), (''status'', JStr ''started''),
               (''pageId'', JStr pageId), (''filter'', filter_json (trimmedTitles f))] w)"
  let ?ue = "uploadEach E R pageId paths (pm_attachments meta) [] [] (pm_attachments meta) ?w1"
  have lc: "localChanged E paths ?w1 = localChanged E paths w"
    by (rule ext) (simp add: localChanged_def)
  obtain up sk upd where ue: "fst ?ue = Inr (up, sk, upd)"
    using assms
    by (cases "fst ?ue") (auto simp: uploadAttachments_def Let_def split_def split: sum.splits)
  have r: "au_uploaded res = up" "au_skipped res = sk"
    and c: "calls (snd (uploadAttachments E R pageId paths f w)) = calls (snd ?ue)"
    using assms ue
    by (auto simp: uploadAttachments_def Let_def split_def split: sum.splits)
  note u = uploadEach_result [OF ue, unfolded lc]
  from u r show "au_uploaded res = map att_title (filter (localChanged E paths w) (pm_attachments meta))"
    by simp
  from u r show "au_skipped res =
           map att_title (filter (\<lambda>a. \<not> localChanged E paths w a) (pm_attachments meta))"
    by simp
  show "\<forall>a\<in>set (pm_attachments meta). localChanged E paths w a \<longrightarrow>
           (\<exists>data. files w (attachmentPath E paths (att_title a)) = Some data \<and>
              PutAttachment (att_title a) data (contentTypeOf E (att_title a))
                \<in> set (calls (snd (uploadAttachments E R pageId paths f w))))"
  proof (intro ballI impI)
    fix a assume a: "a \<in> set (pm_attachments meta)" and l: "localChanged E paths w a"
    from l obtain data where d: "files w (attachmentPath E paths (att_title a)) = Some data"
      and n: "sha256 E data \<noteq> att_sha256 a"
      by (auto simp: localChanged_def split: option.splits)
    from u a d n have "PutAttachment (att_title a) data (contentTypeOf E (att_title a))
                \<in> set (calls (snd ?ue))"
      by simp
    with d c show "\<exists>data. files w (attachmentPath E paths (att_title a)) = Some data \<and>
              PutAttachment (att_title a) data (contentTypeOf E (att_title a))
                \<in> set (calls (snd (uploadAttachments E R pageId paths f w)))"
      by simp
  qed
qed


text \<open>
  C10. An \<^verbatim>\<open>attachmentFilter\<close> whose \<^verbatim>\<open>includeTitles\<close> is the empty list gives the
  same result and the same final state as no filter, for \<^verbatim>\<open>downloadAttachments\<close> and
  for \<^verbatim>\<open>uploadAttachments\<close>: the filter set is \<^verbatim>\<open>null\<close>. With that filter, a
  successful \<^verbatim>\<open>downloadAttachments\<close> treats every listed attachment (each title of the
  remote listing is reported as downloaded or as skipped) and runs the removal pass (a
  tracked attachment that the listing does not name has no file afterwards, is reported in
  \<^verbatim>\<open>removed\<close> and has no entry in the metadata); a successful
  \<^verbatim>\<open>uploadAttachments\<close> treats every tracked attachment: those whose file differs
  from the recorded digest are reported as uploaded, in order, each with a request that
  sends its file, and the others are reported as skipped.
\<close>

theorem empty_includeTitles_is_no_filter:
  "downloadAttachments E R pageId paths (Some \<lparr>includeTitles = Some []\<rparr>) w =
     downloadAttachments E R pageId paths None w \<and>
   uploadAttachments E R pageId paths (Some \<lparr>includeTitles = Some []\<rparr>) w =
     uploadAttachments E R pageId paths None w \<and>
   filterSet_of (trimmedTitles (Some \<lparr>includeTitles = Some []\<rparr>)) = None \<and>
   (listAttachmentsR R (length (calls w)) = Inr remoteList \<and>
    fst (downloadAttachments E R pageId paths (Some \<lparr>includeTitles = Some []\<rparr>) w) = Inr res
    \<longrightarrow> set (ad_downloaded res) \<union> set (ad_skipped res) = ra_title ` set remoteList) \<and>
   (metaJson w = Some meta \<and> listAttachmentsR R (length (calls w)) = Inr remoteList \<and>
    a \<in> set (pm_attachments meta) \<and> att_title a \<notin> ra_title ` set remoteList \<and>
    fst (downloadAttachments E R pageId paths (Some \<lparr>includeTitles = Some []\<rparr>) w) = Inr res
    \<longrightarrow> \<not> fileExists (snd (downloadAttachments E R pageId paths (Some \<lparr>includeTitles = Some []\<rparr>) w))
            (attachmentPath E paths (att_title a)) \<and>
        att_title a \<in> set (ad_removed res) \<and>
        (\<exists>m'. metaJson (snd (downloadAttachments E R pageId paths (Some \<lparr>includeTitles = Some []\<rparr>) w))
                = Some m' \<and>
              att_title a \<notin> att_title ` set (pm_attachments m'))) \<and>
   (metaJson w = Some meta \<and>
    fst (uploadAttachments E R pageId paths (Some \<lparr>includeTitles = Some []\<rparr>) w) = Inr ures
    \<longrightarrow> au_uploaded ures = map att_title (filter (localChanged E paths w) (pm_attachments meta)) \<and>
        au_skipped ures =
          map att_title (filter (\<lambda>a. \<not> localChanged E paths w a) (pm_attachments meta)) \<and>
        (\<forall>a\<in>set (pm_attachments meta). localChanged E paths w a \<longrightarrow>
           (\<exists>data. files w (attachmentPath E paths (att_title a)) = Some data \<and>
              PutAttachment (att_title a) data (contentTypeOf E (att_title a))
                \<in> set (calls (snd (uploadAttachments E R pageId paths
                                     (Some \<lparr>includeTitles = Some []\<rparr>) w))))))"
proof -
  let ?f = "Some \<lparr>includeTitles = Some []\<rparr>"
  have t: "trimmedTitles ?f = Some []"
    and n: "trimmedTitles None = None"
    by (simp_all add: trimmedTitles_def)
  have f: "filterSet_of (Some []) = None" "filterSet_of None = None"
    by (simp_all add: filterSet_of_def)
  have j: "filter_json (Some []) = filter_json None"
    by (simp add: filter_json_def)
  have e: "filterSet_of (trimmedTitles ?f) = None"
    by (simp add: t f)
  have 1: "downloadAttachments E R pageId paths ?f w = downloadAttachments E R pageId paths None w"
    unfolding downloadAttachments_def Let_def t n f j by simp
  have 2: "uploadAttachments E R pageId paths ?f w = uploadAttachments E R pageId paths None w"
    unfolding uploadAttachments_def Let_def t n f j by simp
  show ?thesis
  proof (intro conjI impI)
    show "downloadAttachments E R pageId paths ?f w = downloadAttachments E R pageId paths None w"
      by (rule 1)
    show "uploadAttachments E R pageId paths ?f w = uploadAttachments E R pageId paths None w"
      by (rule 2)
    show "filterSet_of (trimmedTitles ?f) = None"
      by (rule e)
  next
    assume "listAttachmentsR R (length (calls w)) = Inr remoteList \<and>
      fst (downloadAttachments E R pageId paths ?f w) = Inr res"
    then have h: "listAttachmentsR R (length (calls w)) = Inr remoteList"
      "fst (downloadAttachments E R pageId paths ?f w) = Inr res"
      by simp_all
    show "set (ad_downloaded res) \<union> set (ad_skipped res) = ra_title ` set remoteList"
      by (rule unfiltered_candidates [OF e h])
  next
    assume "metaJson w = Some meta \<and> listAttachmentsR R (length (calls w)) = Inr remoteList \<and>
      a \<in> set (pm_attachments meta) \<and> att_title a \<notin> ra_title ` set remoteList \<and>
      fst (downloadAttachments E R pageId paths ?f w) = Inr res"
    then have h: "metaJson w = Some meta" "listAttachmentsR R (length (calls w)) = Inr remoteList"
      "a \<in> set (pm_attachments meta)" "att_title a \<notin> ra_title ` set remoteList"
      "fst (downloadAttachments E R pageId paths ?f w) = Inr res"
      by simp_all
    show "\<not> fileExists (snd (downloadAttachments E R pageId paths ?f w))
            (attachmentPath E paths (att_title a))"
      by (rule unfiltered_removes(1) [OF e h])
    show "att_title a \<in> set (ad_removed res)"
      by (rule unfiltered_removes(2) [OF e h])
    show "\<exists>m'. metaJson (snd (downloadAttachments E R pageId paths ?f w)) = Some m' \<and>
              att_title a \<notin> att_title ` set (pm_attachments m')"
      by (rule unfiltered_removes(3) [OF e h])
  next
    assume "metaJson w = Some meta \<and> fst (uploadAttachments E R pageId paths ?f w) = Inr ures"
    then have h: "metaJson w = Some meta" "fst (uploadAttachments E R pageId paths ?f w) = Inr ures"
      by simp_all
    show "au_uploaded ures = map att_title (filter (localChanged E paths w) (pm_attachments meta))"
      by (rule unfiltered_uploads(1) [OF e h])
    show "au_skipped ures =
          map att_title (filter (\<lambda>a. \<not> localChanged E paths w a) (pm_attachments meta))"
      by (rule unfiltered_uploads(2) [OF e h])
    show "\<forall>a\<in>set (pm_attachments meta). localChanged E paths w a \<longrightarrow>
           (\<exists>data. files w (attachmentPath E paths (att_title a)) = Some data \<and>
              PutAttachment (att_title a) data (contentTypeOf E (att_title a))
                \<in> set (calls (snd (uploadAttachments E R pageId paths ?f w))))"
      by (rule unfiltered_uploads(3) [OF e h])
  qed
qed

lemma eval_upload_unfiltered:
  "fst (uploadAttachments example_env (fixed_remote hello_page [remote_a_v2]) ''123''
          example_paths None edited_world) =
     Inr \<lparr>au_success = True, au_uploaded = [''a.png''], au_skipped = [''old.png''],
          au_metaFile = ''data/123/meta.json'',
          au_logFiles = [(''upload-attachments'', 0)]\<rparr>"
  by code_simp

lemma eval_upload_calls:
  "calls (snd (uploadAttachments example_env (fixed_remote hello_page [remote_a_v2]) ''123''
          example_paths None edited_world)) =
     [GetAttachments, PutAttachment ''a.png'' ''edited'' ''application/octet-stream'']"
  by code_simp

lemma eval_edited_file:
  "files edited_world (attachmentPath example_env example_paths (att_title (tracked_entry ''a.png'')))
     = Some ''edited''"
  by code_simp

lemma eval_edited_changed:
  "localChanged example_env example_paths edited_world (tracked_entry ''a.png'')"
  by code_simp

lemma eval_edited_meta:
  "metaJson edited_world = metaJson tracked_world"
  by (simp add: edited_world_def)

theorem empty_includeTitles_is_no_filter_witness:
  "ad_removed
     (projr (fst (downloadAttachments example_env (fixed_remote hello_page [remote_a_v2]) ''123''
                    example_paths (Some \<lparr>includeTitles = Some []\<rparr>) tracked_world)))
     = [''old.png''] \<and>
   ad_skipped
     (projr (fst (downloadAttachments example_env (fixed_remote hello_page [remote_a_v2]) ''123''
                    example_paths (Some \<lparr>includeTitles = Some []\<rparr>) tracked_world)))
     = [''a.png''] \<and>
   au_uploaded
     (projr (fst (uploadAttachments example_env (fixed_remote hello_page [remote_a_v2]) ''123''
                    example_paths (Some \<lparr>includeTitles = Some []\<rparr>) edited_world)))
     = [''a.png''] \<and>
   au_skipped
     (projr (fst (uploadAttachments example_env (fixed_remote hello_page [remote_a_v2]) ''123''
                    example_paths (Some \<lparr>includeTitles = Some []\<rparr>) edited_world)))
     = [''old.png''] \<and>
   PutAttachment ''a.png'' ''edited'' ''application/octet-stream''
     \<in> set (calls (snd (uploadAttachments example_env (fixed_remote hello_page [remote_a_v2]) ''123''
                    example_paths (Some \<lparr>includeTitles = Some []\<rparr>) edited_world)))"
proof -
  let ?R = "fixed_remote hello_page [remote_a_v2]"
  let ?f = "Some \<lparr>includeTitles = Some []\<rparr>"
  let ?meta = "\<lparr>pm_pageId = ''123'', pm_title = ''Hello'', pm_version = 3, pm_downloadedAt = 0,
         pm_storagePath = ''data/123/page.xhtml'', pm_storageSha256 = ''<p>Hello</p>'',
         pm_lastUploadedAt = None, pm_lastAttachmentScanAt = None,
         pm_attachments = [tracked_entry ''old.png'', tracked_entry ''a.png'']\<rparr>"
  let ?ures = "\<lparr>au_success = True, au_uploaded = [''a.png''], au_skipped = [''old.png''],
          au_metaFile = ''data/123/meta.json'',
          au_logFiles = [(''upload-attachments'', 0)]\<rparr>"
  note d = empty_includeTitles_is_no_filter
    [where E = example_env and R = ?R and pageId = "''123''" and paths = example_paths
       and w = tracked_world]
  note u = empty_includeTitles_is_no_filter
    [where E = example_env and R = ?R and pageId = "''123''" and paths = example_paths
       and w = edited_world and meta = ?meta and ures = ?ures and a = "tracked_entry ''a.png''"]
  from d have de: "downloadAttachments example_env ?R ''123'' example_paths ?f tracked_world =
      downloadAttachments example_env ?R ''123'' example_paths None tracked_world"
    by (rule conjunct1)
  from u [THEN conjunct2, THEN conjunct1]
  have ue: "uploadAttachments example_env ?R ''123'' example_paths ?f edited_world =
      uploadAttachments example_env ?R ''123'' example_paths None edited_world" .
  have m: "metaJson edited_world = Some ?meta"
    by (simp add: edited_world_def tracked_world_def)
  have r: "fst (uploadAttachments example_env ?R ''123'' example_paths ?f edited_world) = Inr ?ures"
    unfolding ue by (rule eval_upload_unfiltered)
  note u6 = u [THEN conjunct2, THEN conjunct2, THEN conjunct2, THEN conjunct2, THEN conjunct2,
    THEN mp, OF conjI [OF m r], THEN conjunct2, THEN conjunct2]
  have "tracked_entry ''a.png'' \<in> set (pm_attachments ?meta)" by simp
  from bspec [OF u6 this]
  have "\<exists>data. files edited_world (attachmentPath example_env example_paths
                 (att_title (tracked_entry ''a.png''))) = Some data \<and>
              PutAttachment (att_title (tracked_entry ''a.png'')) data
                (contentTypeOf example_env (att_title (tracked_entry ''a.png'')))
                \<in> set (calls (snd (uploadAttachments example_env ?R ''123'' example_paths ?f edited_world)))"
    using eval_edited_changed by (rule mp)
  then obtain data where
    fd: "files edited_world (attachmentPath example_env example_paths
           (att_title (tracked_entry ''a.png''))) = Some data"
    and q: "PutAttachment (att_title (tracked_entry ''a.png'')) data
              (contentTypeOf example_env (att_title (tracked_entry ''a.png'')))
            \<in> set (calls (snd (uploadAttachments example_env ?R ''123'' example_paths ?f edited_world)))"
    by blast
  from fd eval_edited_file have dd: "data = ''edited''" by simp
  have t: "att_title (tracked_entry ''a.png'') = ''a.png''" by (simp add: tracked_entry_def)
  have c: "contentTypeOf example_env ''a.png'' = ''application/octet-stream''"
    by (simp add: example_env_def)
  from q have p: "PutAttachment ''a.png'' ''edited'' ''application/octet-stream''
     \<in> set (calls (snd (uploadAttachments example_env ?R ''123'' example_paths ?f edited_world)))"
    unfolding dd t c .
  have r1: "projr (fst (uploadAttachments example_env ?R ''123'' example_paths ?f edited_world)) = ?ures"
    by (simp add: r)
  have r2: "projr (fst (downloadAttachments example_env ?R ''123'' example_paths ?f tracked_world)) =
     \<lparr>ad_success = True, ad_downloaded = [], ad_skipped = [''a.png''],
          ad_removed = [''old.png''], ad_metaFile = ''data/123/meta.json'',
          ad_logFiles = [(''download-attachments'', 0)]\<rparr>"
    unfolding de by (simp add: eval_unfiltered)
  show ?thesis
    unfolding r1 r2 using p by simp
qed

end
